theory Spec2Isabelle
  imports Complex_Main "HOL-Library.AList" "HOL-Library.Word"
begin

section \<open>Relay messages (agent/types.ts)\<close>

text \<open>
  A JavaScript string is modelled as a HOL \<open>string\<close>, one \<open>char\<close> for one code unit.
  The optional fields of \<open>Message\<close> are options; \<open>meta\<close> is a \<open>Record<string, string>\<close>,
  a finite map from keys to strings.
\<close>

record message =
  mtype :: string
  role :: "string option"
  session :: "string option"
  payload :: "string option"
  meta :: "(string \<rightharpoonup> string) option"

text \<open>JavaScript truthiness of an optional string: defined and not empty.\<close>

definition truthy :: "string option \<Rightarrow> bool" where
  "truthy v = (case v of None \<Rightarrow> False | Some s \<Rightarrow> s \<noteq> [])"

text \<open>\<open>meta?.key\<close>: undefined when \<open>meta\<close> is missing or has no such key.\<close>

definition meta_get :: "message \<Rightarrow> string \<Rightarrow> string option" where
  "meta_get m k = (case meta m of None \<Rightarrow> None | Some mp \<Rightarrow> mp k)"

section \<open>The connection state shared by both socket clients\<close>

text \<open>
  \<open>RelayWebSocketClient\<close> (agent/websocket.ts) and \<open>ApiWebSocketClient\<close> (agent/api-client.ts)
  declare the same private fields \<open>ws\<close>, \<open>isConnected\<close>, \<open>reconnectAttempts\<close>,
  \<open>circuitBreakerOpen\<close>, \<open>circuitBreakerResetTime\<close>, \<open>reconnectTimer\<close>, \<open>destroyed\<close>, the same
  four constants, and the same text of \<open>send\<close> and \<open>scheduleReconnect\<close>. The record \<open>conn\<close>
  holds these fields; each client extends it with its own.

  The part of the Node runtime that the client's code acts on is kept in the same record:
  \<^item> \<open>sockets\<close>: the \<open>readyState\<close> of every \<open>WebSocket\<close> object the client has constructed,
    in order of construction; \<open>ws\<close> is an index into it (\<open>None\<close> is \<open>null\<close>);
  \<^item> \<open>timers\<close>: the pending \<open>setTimeout\<close> calls, each with its handle, callback and delay;
    \<open>reconnectTimer\<close> is the handle stored last;
  \<^item> \<open>wire\<close>: the messages handed to \<open>ws.send\<close>, with the socket they were written to.
\<close>

datatype readyState = CONNECTING | OPEN | CLOSING | CLOSED

datatype callback =
    Reschedule  \<comment> \<open>\<open>() => this.scheduleReconnect()\<close>\<close>
  | Reconnect   \<comment> \<open>\<open>() => { if (!this.isConnected && !this.destroyed) this.connect(); }\<close>\<close>

record conn =
  ws :: "nat option"
  isConnected :: bool
  reconnectAttempts :: nat
  circuitBreakerOpen :: bool
  circuitBreakerResetTime :: int
  reconnectTimer :: "nat option"
  destroyed :: bool
  sockets :: "readyState list"
  timers :: "(nat \<times> callback \<times> int) list"
  nextTimer :: nat
  wire :: "(nat \<times> message) list"

definition MAX_RECONNECT_ATTEMPTS :: nat where "MAX_RECONNECT_ATTEMPTS = 5"
definition BASE_RECONNECT_DELAY_MS :: real where "BASE_RECONNECT_DELAY_MS = 2000"
definition MAX_RECONNECT_DELAY_MS :: real where "MAX_RECONNECT_DELAY_MS = 60000"
definition CIRCUIT_BREAKER_DURATION_MS :: int where "CIRCUIT_BREAKER_DURATION_MS = 120000"

text \<open>The state of socket \<open>i\<close>; an index that was never constructed reads as closed.\<close>

definition readyStateOf :: "'a conn_scheme \<Rightarrow> nat \<Rightarrow> readyState" where
  "readyStateOf s i = (if i < length (sockets s) then sockets s ! i else CLOSED)"

text \<open>
  \<open>send(message)\<close>: false when there is no socket or it is not open; otherwise the message
  is written, unless \<open>ws.send\<close> throws (\<open>throws\<close>), which is caught and reported as false.
\<close>

definition send :: "bool \<Rightarrow> message \<Rightarrow> 'a conn_scheme \<Rightarrow> bool \<times> 'a conn_scheme" where
  "send throws m s =
     (case ws s of
        None \<Rightarrow> (False, s)
      | Some i \<Rightarrow>
          if readyStateOf s i \<noteq> OPEN then (False, s)
          else if throws then (False, s)
          else (True, s\<lparr>wire := wire s @ [(i, m)]\<rparr>))"

text \<open>\<open>setTimeout(cb, delay)\<close> returns a fresh handle; \<open>clearTimeout(h)\<close> drops the entry.\<close>

definition setTimeout :: "callback \<Rightarrow> int \<Rightarrow> 'a conn_scheme \<Rightarrow> nat \<times> 'a conn_scheme" where
  "setTimeout cb d s =
     (nextTimer s, s\<lparr>timers := timers s @ [(nextTimer s, cb, d)], nextTimer := Suc (nextTimer s)\<rparr>)"

definition clearTimeout :: "nat \<Rightarrow> 'a conn_scheme \<Rightarrow> 'a conn_scheme" where
  "clearTimeout h s = s\<lparr>timers := filter (\<lambda>t. fst t \<noteq> h) (timers s)\<rparr>"

text \<open>
  The backoff of \<open>scheduleReconnect\<close>, for the attempt number \<open>n\<close> and the value \<open>r\<close> returned
  by \<open>Math.random()\<close>:
  \<^verbatim>\<open>
  const delay = Math.min(BASE_RECONNECT_DELAY_MS * Math.pow(2, this.reconnectAttempts - 1),
                         MAX_RECONNECT_DELAY_MS);
  const jitter = Math.random() * delay * 0.5;
  const reconnectDelay = Math.floor(delay + jitter);
  \<close>
  The arithmetic is over the reals: the rounding of IEEE doubles is not modelled. The
  exponent is an integer (\<open>power_int\<close>), since \<open>n - 1\<close> is negative for \<open>n = 0\<close>.
\<close>

definition backoffDelay :: "nat \<Rightarrow> real" where
  "backoffDelay n =
     min (BASE_RECONNECT_DELAY_MS * power_int 2 (int n - 1)) MAX_RECONNECT_DELAY_MS"

definition backoffJitter :: "nat \<Rightarrow> real \<Rightarrow> real" where
  "backoffJitter n r = r * backoffDelay n * 0.5"

definition reconnectDelay :: "nat \<Rightarrow> real \<Rightarrow> int" where
  "reconnectDelay n r = \<lfloor>backoffDelay n + backoffJitter n r\<rfloor>"

text \<open>
  \<open>scheduleReconnect()\<close>, with the clock reading \<open>now\<close> of \<open>Date.now()\<close> (each path reads the
  clock at most once) and the random number \<open>r\<close>. Console output is left out.
\<close>

definition scheduleReconnect :: "int \<Rightarrow> real \<Rightarrow> 'a conn_scheme \<Rightarrow> 'a conn_scheme" where
  "scheduleReconnect now r s =
     (if destroyed s then s
      else if circuitBreakerOpen s \<and> now < circuitBreakerResetTime s then
        (let (h, s') = setTimeout Reschedule (circuitBreakerResetTime s - now) s
         in s'\<lparr>reconnectTimer := Some h\<rparr>)
      else
        (let s1 = (if circuitBreakerOpen s
                   then s\<lparr>circuitBreakerOpen := False, reconnectAttempts := 0\<rparr> else s);
             s2 = s1\<lparr>reconnectAttempts := reconnectAttempts s1 + 1\<rparr>
         in if reconnectAttempts s2 > MAX_RECONNECT_ATTEMPTS then
              (let s3 = s2\<lparr>circuitBreakerOpen := True,
                           circuitBreakerResetTime := now + CIRCUIT_BREAKER_DURATION_MS,
                           reconnectAttempts := 0\<rparr>;
                   (h, s4) = setTimeout Reschedule CIRCUIT_BREAKER_DURATION_MS s3
               in s4\<lparr>reconnectTimer := Some h\<rparr>)
            else
              (let (h, s3) = setTimeout Reconnect (reconnectDelay (reconnectAttempts s2) r) s2
               in s3\<lparr>reconnectTimer := Some h\<rparr>)))"

section \<open>The Relay Link (agent/websocket.ts)\<close>

datatype emitted =
    Connected
  | Disconnected int string
  | Keys string
  | Resize int int
  | CreateSession string
  | KillSession
  | ErrorEvent
  | MessageEvent message

text \<open>
  \<open>RelayWebSocketClient\<close>: the shared connection state, the constructor's fields, and what
  the client does to its surroundings: the events it emits, the lines it writes with
  \<open>console.error\<close> in \<open>handleError\<close>, and the status given to \<open>process.exit\<close>.
\<close>

record link = conn +
  url :: string
  sessionId :: string
  machineId :: string
  token :: string
  label :: string
  autoReconnect :: bool
  emitted :: "emitted list"
  console :: "string list"
  exitCode :: "int option"

record options =
  opt_url :: string
  opt_sessionId :: string
  opt_machineId :: string
  opt_token :: string
  opt_label :: "string option"
  opt_autoReconnect :: "bool option"

definition constructor :: "options \<Rightarrow> link" where
  "constructor opts =
     \<lparr>ws = None, isConnected = False, reconnectAttempts = 0, circuitBreakerOpen = False,
      circuitBreakerResetTime = 0, reconnectTimer = None, destroyed = False,
      sockets = [], timers = [], nextTimer = 0, wire = [],
      url = opt_url opts, sessionId = opt_sessionId opts, machineId = opt_machineId opts,
      token = opt_token opts,
      label = (if truthy (opt_label opts) then the (opt_label opts) else opt_sessionId opts),
      autoReconnect = (case opt_autoReconnect opts of None \<Rightarrow> True | Some b \<Rightarrow> b),
      emitted = [], console = [], exitCode = None\<rparr>"

definition emit :: "emitted \<Rightarrow> link \<Rightarrow> link" where
  "emit e s = s\<lparr>emitted := emitted s @ [e]\<rparr>"

text \<open>
  \<open>connect()\<close>. \<open>throws\<close> says whether \<open>new WebSocket(this.url)\<close> throws; then \<open>this.ws\<close>
  keeps its old value and the \<open>catch\<close> branch runs. There is no test of \<open>isConnected\<close> or
  of \<open>this.ws\<close>: only \<open>destroyed\<close> is checked.
\<close>

definition connect :: "bool \<Rightarrow> int \<Rightarrow> real \<Rightarrow> link \<Rightarrow> link" where
  "connect throws now r s =
     (if destroyed s then s
      else if \<not> throws then
        s\<lparr>ws := Some (length (sockets s)), sockets := sockets s @ [CONNECTING]\<rparr>
      else
        (let s1 = emit ErrorEvent s
         in if autoReconnect s1 \<and> \<not> destroyed s1 then scheduleReconnect now r s1 else s1))"

definition registerAsHost :: "bool \<Rightarrow> link \<Rightarrow> link" where
  "registerAsHost throws s =
     (let m0 = [''label'' \<mapsto> label s, ''machineId'' \<mapsto> machineId s];
          m = (if token s \<noteq> [] then m0(''token'' \<mapsto> token s) else m0)
      in snd (send throws \<lparr>mtype = ''register'', role = Some ''host'',
                            session = Some (sessionId s), payload = None, meta = Some m\<rparr> s))"

text \<open>\<open>ws.close()\<close> on socket \<open>i\<close>: a socket that is not yet closed starts closing.\<close>

definition closeSocket :: "nat \<Rightarrow> 'a conn_scheme \<Rightarrow> 'a conn_scheme" where
  "closeSocket i s =
     (if readyStateOf s i = CLOSED then s else s\<lparr>sockets := (sockets s)[i := CLOSING]\<rparr>)"

definition destroy :: "link \<Rightarrow> link" where
  "destroy s =
     (let s1 = s\<lparr>destroyed := True, autoReconnect := False\<rparr>;
          s2 = (case reconnectTimer s1 of
                  None \<Rightarrow> s1
                | Some h \<Rightarrow> (clearTimeout h s1)\<lparr>reconnectTimer := None\<rparr>)
      in case ws s2 of
           None \<Rightarrow> s2
         | Some i \<Rightarrow> (closeSocket i s2)\<lparr>ws := None\<rparr>)"

text \<open>A template literal prints a missing key as \<open>undefined\<close>.\<close>

definition interp :: "(string \<rightharpoonup> string) \<Rightarrow> string \<Rightarrow> string" where
  "interp mp k = (case mp k of None \<Rightarrow> ''undefined'' | Some v \<Rightarrow> v)"

definition banner :: string where
  "banner = replicate 60 CHR ''=''"

text \<open>The label of the Korean message line, as its UTF-8 bytes.\<close>

definition korean_label :: string where
  "korean_label = map char_of [237, 149, 156, 234, 181, 173, 236, 150, 180 :: nat] @ '': ''"

definition limit_notice :: "(string \<rightharpoonup> string) \<Rightarrow> string list" where
  "limit_notice mp =
     [banner, ''SESSION LIMIT EXCEEDED'', banner,
      ''Resource: '' @ interp mp ''resource'',
      ''Current: '' @ interp mp ''current'' @ '', Max: '' @ interp mp ''max'',
      ''Message: '' @ interp mp ''messageEn'',
      korean_label @ interp mp ''messageKo'',
      ''Upgrade at: '' @ interp mp ''upgradeUrl'',
      banner]"

definition handleError :: "message \<Rightarrow> link \<Rightarrow> link" where
  "handleError m s =
     (case meta m of
        None \<Rightarrow> s
      | Some mp \<Rightarrow>
          if mp ''code'' = Some ''LIMIT_EXCEEDED'' then
            (let s1 = s\<lparr>console := console s @ limit_notice mp\<rparr>;
                 s2 = s1\<lparr>autoReconnect := False\<rparr>;
                 s3 = destroy s2
             in s3\<lparr>exitCode := Some 1\<rparr>)
          else
            s\<lparr>console := console s @
                 [''Error: code='' @ interp mp ''code'' @ '', message='' @ interp mp ''messageEn'']\<rparr>)"

text \<open>
  \<open>handleMessage\<close>. \<open>pint\<close> stands for \<open>parseInt(_, 10)\<close>, with \<open>None\<close> for \<open>NaN\<close>; a missing
  key parses to \<open>NaN\<close>.
\<close>

definition parseInt :: "(string \<Rightarrow> int option) \<Rightarrow> string option \<Rightarrow> int option" where
  "parseInt pint v = (case v of None \<Rightarrow> None | Some t \<Rightarrow> pint t)"

definition handleMessage :: "(string \<Rightarrow> int option) \<Rightarrow> message \<Rightarrow> link \<Rightarrow> link" where
  "handleMessage pint m s =
     (if mtype m = ''keys'' then
        (if session m = Some (sessionId s) \<and> truthy (payload m)
         then emit (Keys (the (payload m))) s else s)
      else if mtype m = ''resize'' then
        (case meta m of
           None \<Rightarrow> s
         | Some mp \<Rightarrow>
             if session m = Some (sessionId s) then
               (case (parseInt pint (mp ''cols''), parseInt pint (mp ''rows'')) of
                  (Some cols, Some rows) \<Rightarrow> emit (Resize cols rows) s
                | _ \<Rightarrow> s)
             else s)
      else if mtype m = ''createSession'' then
        (if truthy (meta_get m ''sessionName'')
         then emit (CreateSession (the (meta_get m ''sessionName''))) s else s)
      else if mtype m = ''killSession'' then
        (if session m = Some (sessionId s) then emit KillSession s else s)
      else if mtype m = ''error'' then handleError m s
      else emit (MessageEvent m) s)"

subsection \<open>The socket's event handlers and the timers\<close>

definition on_open :: "bool \<Rightarrow> link \<Rightarrow> link" where
  "on_open throws s =
     registerAsHost throws
       (emit Connected
          (s\<lparr>isConnected := True, reconnectAttempts := 0, circuitBreakerOpen := False\<rparr>))"

definition on_close :: "int \<Rightarrow> string \<Rightarrow> int \<Rightarrow> real \<Rightarrow> link \<Rightarrow> link" where
  "on_close code reason now r s =
     (let s1 = emit (Disconnected code reason) (s\<lparr>isConnected := False\<rparr>)
      in if autoReconnect s1 \<and> \<not> destroyed s1 then scheduleReconnect now r s1 else s1)"

text \<open>\<open>on_message\<close>: \<open>None\<close> is data that \<open>JSON.parse\<close> rejects; it is logged and dropped.\<close>

definition on_message :: "(string \<Rightarrow> int option) \<Rightarrow> message option \<Rightarrow> link \<Rightarrow> link" where
  "on_message pint d s = (case d of None \<Rightarrow> s | Some m \<Rightarrow> handleMessage pint m s)"

definition run_callback :: "callback \<Rightarrow> bool \<Rightarrow> int \<Rightarrow> real \<Rightarrow> link \<Rightarrow> link" where
  "run_callback cb throws now r s =
     (case cb of
        Reschedule \<Rightarrow> scheduleReconnect now r s
      | Reconnect \<Rightarrow> if \<not> isConnected s \<and> \<not> destroyed s then connect throws now r s else s)"

subsection \<open>The Link as a state machine\<close>

text \<open>
  What the runtime can do to a Link after its owner has called \<open>connect()\<close> once
  (session-handler.ts constructs a client and connects it once): a socket the Link
  constructed opens, delivers a message, reports an error or closes; a pending timer fires;
  the owner calls \<open>destroy()\<close>. Each event carries what the handler reads from outside:
  the clock, the random number, whether \<open>ws.send\<close> or \<open>new WebSocket\<close> throws.
  An event that cannot happen in the current state (a socket that is not in the right
  \<open>readyState\<close>, a handle that is not pending, anything after \<open>process.exit\<close>) leaves the
  state as it is.
\<close>

datatype event =
    SockOpen nat bool
  | SockMessage nat "message option"
  | SockError nat
  | SockClose nat int string int real
  | TimerFires nat bool int real
  | Destroy

definition pending :: "nat \<Rightarrow> link \<Rightarrow> callback option" where
  "pending h s = map_option fst (map_of (timers s) h)"

definition step :: "(string \<Rightarrow> int option) \<Rightarrow> event \<Rightarrow> link \<Rightarrow> link" where
  "step pint e s =
     (if exitCode s \<noteq> None then s
      else case e of
        SockOpen i throws \<Rightarrow>
          if readyStateOf s i = CONNECTING
          then on_open throws (s\<lparr>sockets := (sockets s)[i := OPEN]\<rparr>) else s
      | SockMessage i d \<Rightarrow>
          if readyStateOf s i = OPEN \<or> readyStateOf s i = CLOSING
          then on_message pint d s else s
      | SockError i \<Rightarrow>
          if readyStateOf s i \<noteq> CLOSED then emit ErrorEvent s else s
      | SockClose i code reason now r \<Rightarrow>
          if readyStateOf s i \<noteq> CLOSED
          then on_close code reason now r (s\<lparr>sockets := (sockets s)[i := CLOSED]\<rparr>) else s
      | TimerFires h throws now r \<Rightarrow>
          (case pending h s of
             None \<Rightarrow> s
           | Some cb \<Rightarrow> run_callback cb throws now r (clearTimeout h s))
      | Destroy \<Rightarrow> destroy s)"

inductive reachable :: "(string \<Rightarrow> int option) \<Rightarrow> link \<Rightarrow> bool" for pint where
  reach_start: "reachable pint (connect throws now r (constructor opts))"
| reach_step: "reachable pint s \<Longrightarrow> reachable pint (step pint e s)"

text \<open>The sockets that are not closed, and the invariant of the reachable states.\<close>

definition live :: "'a conn_scheme \<Rightarrow> nat" where
  "live s = length (filter (\<lambda>st. st \<noteq> CLOSED) (sockets s))"

definition link_inv :: "link \<Rightarrow> bool" where
  "link_inv s \<longleftrightarrow>
     live s + length (timers s) \<le> 1 \<and>
     (circuitBreakerOpen s \<longrightarrow>
        reconnectAttempts s = 0 \<and> live s = 0 \<and>
        (\<forall>t \<in> set (timers s). fst (snd t) = Reschedule))"

subsection \<open>Screen frames\<close>

text \<open>
  A \<open>Buffer\<close> is a list of bytes. \<open>Buffer.from(_, 'utf-8')\<close>, \<open>zlib.gzipSync\<close> and
  \<open>toString('base64')\<close> belong to the runtime and are parameters; \<open>gzipSync\<close> gives \<open>None\<close>
  when it throws.
\<close>

type_synonym buffer = "8 word list"

record codec =
  utf8 :: "string \<Rightarrow> buffer"
  gzipSync :: "buffer \<Rightarrow> buffer option"
  base64 :: "buffer \<Rightarrow> string"

definition screenMessage :: "string \<Rightarrow> string \<Rightarrow> string \<Rightarrow> message" where
  "screenMessage ty sid b64 =
     \<lparr>mtype = ty, role = None, session = Some sid, payload = Some b64, meta = None\<rparr>"

definition sendScreen :: "codec \<Rightarrow> bool \<Rightarrow> buffer \<Rightarrow> link \<Rightarrow> bool \<times> link" where
  "sendScreen cd throws data s =
     (if \<not> isConnected s then (False, s)
      else send throws (screenMessage ''screen'' (sessionId s) (base64 cd data)) s)"

definition sendScreenCompressed :: "codec \<Rightarrow> bool \<Rightarrow> buffer \<Rightarrow> link \<Rightarrow> bool \<times> link" where
  "sendScreenCompressed cd throws data s =
     (if \<not> isConnected s then (False, s)
      else case gzipSync cd data of
             Some compressed \<Rightarrow>
               send throws (screenMessage ''screenGz'' (sessionId s) (base64 cd compressed)) s
           | None \<Rightarrow> sendScreen cd throws data s)"

section \<open>The capture scheduler (agent/session-handler.ts)\<close>

record agentConfig =
  config_machineId :: string
  relay :: string
  config_token :: string

definition CAPTURE_INTERVAL_ACTIVE_MS :: int where "CAPTURE_INTERVAL_ACTIVE_MS = 50"
definition CAPTURE_INTERVAL_IDLE_MS :: int where "CAPTURE_INTERVAL_IDLE_MS = 200"
definition ACTIVE_THRESHOLD_MS :: int where "ACTIVE_THRESHOLD_MS = 2000"
definition FORCE_SEND_INTERVAL_MS :: int where "FORCE_SEND_INTERVAL_MS = 10000"
definition USE_COMPRESSION :: bool where "USE_COMPRESSION = True"
definition MIN_COMPRESS_SIZE :: nat where "MIN_COMPRESS_SIZE = 512"

text \<open>
  \<open>TmuxSessionHandler\<close>. \<open>captureTimer\<close> is the delay of the pending \<open>setTimeout(capture, _)\<close>
  (\<open>None\<close> is \<open>null\<close>); \<open>startTimers\<close> holds the delays of the pending
  \<open>setTimeout(() => this.connectAndRun(), jitter)\<close>, whose handle the source does not keep;
  \<open>released\<close> holds the clients that \<open>stop()\<close> destroyed before it set \<open>wsClient\<close> to
  \<open>null\<close>, as \<open>destroy()\<close> left them.
\<close>

record handler =
  config :: agentConfig
  tmuxSession :: string
  handlerSessionId :: string
  wsClient :: "link option"
  running :: bool
  lastScreen :: string
  lastForceSendTime :: int
  lastChangeTime :: int
  captureTimer :: "int option"
  startTimers :: "int list"
  released :: "link list"

definition newHandler :: "agentConfig \<Rightarrow> string \<Rightarrow> handler" where
  "newHandler cfg name =
     \<lparr>config = cfg, tmuxSession = name,
      handlerSessionId = config_machineId cfg @ ''/'' @ name,
      wsClient = None, running = False, lastScreen = [], lastForceSendTime = 0,
      lastChangeTime = 0, captureTimer = None, startTimers = [], released = []\<rparr>"

text \<open>\<open>start()\<close>, with the random number \<open>r\<close> of the start jitter.\<close>

definition handler_start :: "real \<Rightarrow> handler \<Rightarrow> handler" where
  "handler_start r h =
     (if running h then h
      else h\<lparr>running := True, startTimers := startTimers h @ [\<lfloor>r * 5000\<rfloor>]\<rparr>)"

definition connectAndRun :: "bool \<Rightarrow> int \<Rightarrow> real \<Rightarrow> handler \<Rightarrow> handler" where
  "connectAndRun throws now r h =
     (if \<not> running h then h
      else h\<lparr>wsClient := Some (connect throws now r (constructor
             \<lparr>opt_url = relay (config h), opt_sessionId = handlerSessionId h,
              opt_machineId = config_machineId (config h), opt_token = config_token (config h),
              opt_label = Some (tmuxSession h), opt_autoReconnect = Some True\<rparr>))\<rparr>)"

definition stopScreenCapture :: "handler \<Rightarrow> handler" where
  "stopScreenCapture h = h\<lparr>captureTimer := None\<rparr>"

definition handler_stop :: "handler \<Rightarrow> handler" where
  "handler_stop h =
     (let h1 = stopScreenCapture (h\<lparr>running := False\<rparr>)
      in case wsClient h1 of
           None \<Rightarrow> h1
         | Some c \<Rightarrow> h1\<lparr>released := released h1 @ [destroy c], wsClient := None\<rparr>)"

text \<open>
  What \<open>tmux.capturePane\<close> gives on a tick: the screen, \<open>null\<close>, or an exception (the body of
  \<open>capture\<close> is inside \<open>try\<close>).
\<close>

datatype pane = Snapshot string | Unavailable | CaptureThrows

text \<open>The prefix \<open>'\x1b[2J\x1b[H'\<close>: clear the screen, move the cursor home.\<close>

definition clearHome :: string where
  "clearHome = [char_of (27 :: nat)] @ ''[2J'' @ [char_of (27 :: nat)] @ ''[H''"

definition connectedClient :: "handler \<Rightarrow> bool" where
  "connectedClient h = (case wsClient h of None \<Rightarrow> False | Some c \<Rightarrow> isConnected c)"

text \<open>
  One run of the closure \<open>capture\<close> of \<open>startScreenCapture\<close>, with the clock reading \<open>now\<close>.
  The client is not \<open>null\<close> where a frame is sent, because \<open>getConnected()\<close> was just read
  from it.
\<close>

definition capture :: "codec \<Rightarrow> bool \<Rightarrow> pane \<Rightarrow> int \<Rightarrow> handler \<Rightarrow> handler" where
  "capture cd throws p now h =
     (if \<not> running h \<or> \<not> connectedClient h then h\<lparr>captureTimer := Some 500\<rparr>
      else case p of
        CaptureThrows \<Rightarrow> h\<lparr>captureTimer := Some 500\<rparr>
      | Unavailable \<Rightarrow> h\<lparr>captureTimer := Some CAPTURE_INTERVAL_IDLE_MS\<rparr>
      | Snapshot screen \<Rightarrow>
          (let changed = (screen \<noteq> lastScreen h);
               forceTime = (now - lastForceSendTime h \<ge> FORCE_SEND_INTERVAL_MS);
               h1 = (if changed \<or> forceTime then
                       (let h2 = h\<lparr>lastScreen := screen, lastForceSendTime := now\<rparr>;
                            h3 = (if changed then h2\<lparr>lastChangeTime := now\<rparr> else h2);
                            data = utf8 cd (clearHome @ screen)
                        in if USE_COMPRESSION \<and> length data > MIN_COMPRESS_SIZE
                           then h3\<lparr>wsClient :=
                                  map_option (\<lambda>c. snd (sendScreenCompressed cd throws data c))
                                    (wsClient h3)\<rparr>
                           else h3\<lparr>wsClient :=
                                  map_option (\<lambda>c. snd (sendScreen cd throws data c))
                                    (wsClient h3)\<rparr>)
                     else h);
               isActive = (now - lastChangeTime h1 < ACTIVE_THRESHOLD_MS);
               sleepMs = (if isActive then CAPTURE_INTERVAL_ACTIVE_MS
                          else CAPTURE_INTERVAL_IDLE_MS)
           in h1\<lparr>captureTimer := Some sleepMs\<rparr>))"

text \<open>The frames the handler's client has written to its sockets.\<close>

definition frames :: "handler \<Rightarrow> message list" where
  "frames h = (case wsClient h of None \<Rightarrow> [] | Some c \<Rightarrow> map snd (wire c))"

text \<open>
  A codec to run examples with: the bytes of ASCII text, a stand-in for gzip that keeps the
  first 20 bytes and throws on more than 1000, and bytes shown as characters.
\<close>

definition exampleCodec :: codec where
  "exampleCodec =
     \<lparr>utf8 = map (\<lambda>c. of_nat (of_char c)),
      gzipSync = (\<lambda>b. if length b \<le> 1000 then Some (take 20 b) else None),
      base64 = map (\<lambda>w. char_of (unat w))\<rparr>"

text \<open>
  A handler to run examples with: session \<open>dev\<close> on machine \<open>m\<close>, running, its client
  connected on an open socket, nothing captured yet.
\<close>

definition exampleConfig :: agentConfig where
  "exampleConfig = \<lparr>config_machineId = ''m'', relay = ''wss://relay'', config_token = []\<rparr>"

definition exampleLink :: link where
  "exampleLink =
     (constructor \<lparr>opt_url = ''wss://relay'', opt_sessionId = ''m/dev'', opt_machineId = ''m'',
                   opt_token = [], opt_label = Some ''dev'', opt_autoReconnect = Some True\<rparr>)
       \<lparr>ws := Some 0, sockets := [OPEN], isConnected := True\<rparr>"

definition exampleHandler :: handler where
  "exampleHandler = (newHandler exampleConfig ''dev'')\<lparr>running := True, wsClient := Some exampleLink\<rparr>"

section \<open>The session orchestrator (agent/runner.ts)\<close>

text \<open>
  \<open>AgentRunner\<close>. \<open>handlers\<close> is a JavaScript \<open>Map\<close>: an association list in insertion
  order, where \<open>set\<close> of a new key appends and \<open>delete\<close> removes. Two lists record what the
  runner did to its surroundings: \<open>retired\<close>, the handlers that \<open>stopSessionHandler\<close> stopped
  and deleted from the map, as \<open>stop()\<close> left them, and \<open>createCalls\<close>, the names given to
  \<open>tmux.createSession\<close>.
\<close>

record runner =
  runnerConfig :: agentConfig
  handlers :: "(string \<times> handler) list"
  retired :: "(string \<times> handler) list"
  createCalls :: "string list"

text \<open>\<open>new Set(xs)\<close> keeps the first occurrence of each element, in order.\<close>

definition newSet :: "'a list \<Rightarrow> 'a list" where
  "newSet xs = rev (remdups (rev xs))"

text \<open>\<open>rnd name\<close> is the random number drawn when the handler of \<open>name\<close> starts.\<close>

definition startSessionHandler :: "(string \<Rightarrow> real) \<Rightarrow> string \<Rightarrow> runner \<Rightarrow> runner" where
  "startSessionHandler rnd name r =
     r\<lparr>handlers :=
         AList.update name
           (handler_start (rnd name) (newHandler (runnerConfig r) name))
           (handlers r)\<rparr>"

definition stopSessionHandler :: "string \<Rightarrow> runner \<Rightarrow> runner" where
  "stopSessionHandler name r =
     (case map_of (handlers r) name of
        None \<Rightarrow> r
      | Some h \<Rightarrow>
          r\<lparr>retired := retired r @ [(name, handler_stop h)],
            handlers := AList.delete name (handlers r)\<rparr>)"

text \<open>
  \<open>scanAndUpdateSessions()\<close>. \<open>scan\<close> is what \<open>tmux.scanSessions()\<close> returns, \<open>None\<close> when it
  throws; the exception is caught and the scan changes nothing.
\<close>

definition scanAndUpdateSessions ::
  "string list option \<Rightarrow> (string \<Rightarrow> real) \<Rightarrow> runner \<Rightarrow> runner" where
  "scanAndUpdateSessions scan rnd r =
     (case scan of
        None \<Rightarrow> r
      | Some names \<Rightarrow>
          (let currentSessions = newSet names;
               trackedSessions = newSet (map fst (handlers r));
               r1 = fold (\<lambda>session r'. if session \<notin> set trackedSessions
                                        then startSessionHandler rnd session r' else r')
                      currentSessions r
           in fold (\<lambda>session r'. if session \<notin> set currentSessions
                                   then stopSessionHandler session r' else r')
                trackedSessions r1))"

text \<open>The replacement \<open>sessionName.replace(/[^a-zA-Z0-9_-]/g, '_')\<close>.\<close>

definition nameChar :: "char \<Rightarrow> bool" where
  "nameChar c \<longleftrightarrow>
     (let n = (of_char c :: nat)
      in (97 \<le> n \<and> n \<le> 122) \<or> (65 \<le> n \<and> n \<le> 90) \<or> (48 \<le> n \<and> n \<le> 57) \<or> n = 95 \<or> n = 45)"

definition sanitize :: "string \<Rightarrow> string" where
  "sanitize sessionName = map (\<lambda>c. if nameChar c then c else CHR ''_'') sessionName"

text \<open>
  \<open>createTmuxSession(sessionName)\<close>. \<open>created\<close> is the result of \<open>tmux.createSession\<close>;
  \<open>scan\<close> and \<open>rnd\<close> are those of the scan that follows a successful creation.
\<close>

definition createTmuxSession ::
  "(string \<Rightarrow> bool) \<Rightarrow> string list option \<Rightarrow> (string \<Rightarrow> real) \<Rightarrow> string \<Rightarrow> runner \<Rightarrow> runner" where
  "createTmuxSession created scan rnd sessionName r =
     (let sanitized = sanitize sessionName
      in if sanitized = [] then r
         else if map_of (handlers r) sanitized \<noteq> None then r
         else
           (let r1 = r\<lparr>createCalls := createCalls r @ [sanitized]\<rparr>
            in if created sanitized then scanAndUpdateSessions scan rnd r1 else r1))"

text \<open>
  A runner to run examples with: nothing tracked yet; \<open>tmux.createSession\<close> that succeeds;
  start jitter drawn as 0.
\<close>

definition exampleRunner :: runner where
  "exampleRunner = \<lparr>runnerConfig = exampleConfig, handlers = [], retired = [], createCalls = []\<rparr>"

definition createSucceeds :: "string \<Rightarrow> bool" where
  "createSucceeds name = True"

definition noJitter :: "string \<Rightarrow> real" where
  "noJitter name = 0"

section \<open>The control channel (agent/api-client.ts)\<close>

text \<open>
  \<open>ApiWebSocketClient\<close>: the shared connection state, the configuration it reads, and the
  calls it makes to \<open>tmux.sendKeys\<close> (target, keys, enter).
\<close>

datatype json =
    JNull | JBool bool | JNum real | JStr string | JArr "json list" | JObj "(string \<times> json) list"

text \<open>
  The value of a property read from a parsed payload: \<open>undefined\<close>, a JSON value, or a method
  inherited from a prototype.
\<close>

datatype jsvalue = Undefined | Value json | Method

record api_client = conn +
  api_config :: agentConfig
  agentId :: "string option"
  sendKeysCalls :: "(jsvalue \<times> jsvalue \<times> jsvalue) list"

definition apiClient :: "agentConfig \<Rightarrow> string option \<Rightarrow> api_client" where
  "apiClient cfg agent =
     \<lparr>ws = None, isConnected = False, reconnectAttempts = 0, circuitBreakerOpen = False,
      circuitBreakerResetTime = 0, reconnectTimer = None, destroyed = False,
      sockets = [], timers = [], nextTimer = 0, wire = [],
      api_config = cfg, agentId = agent, sendKeysCalls = []\<rparr>"

text \<open>
  The runtime and the capability interface, as \<open>handleSendKeys\<close> uses them:
  \<^item> \<open>json_parse\<close>: \<open>JSON.parse\<close>, \<open>Inl\<close> with the message of the \<open>SyntaxError\<close> it throws;
  \<^item> \<open>json_stringify\<close>: \<open>JSON.stringify\<close>;
  \<^item> \<open>null_message\<close>: the message of the \<open>TypeError\<close> thrown when \<open>null\<close> is destructured;
  \<^item> \<open>tmux_sendKeys\<close>: \<open>tmux.sendKeys\<close>, \<open>Inl\<close> with the message when it throws (it reads
    \<open>getExecutor()\<close> outside its own \<open>try\<close>).
\<close>

record js_env =
  json_parse :: "string \<Rightarrow> string + json"
  json_stringify :: "json \<Rightarrow> string"
  null_message :: string
  tmux_sendKeys :: "jsvalue \<Rightarrow> jsvalue \<Rightarrow> jsvalue \<Rightarrow> string + bool"

text \<open>
  The properties \<open>target\<close>, \<open>keys\<close> and \<open>enter\<close> of a parsed payload that is not \<open>null\<close>.
  Only an object has them as its own (\<open>JObj\<close> lists the own properties, each key once); of
  the inherited names only \<open>keys\<close> exists, on arrays.
\<close>

fun getProp :: "json \<Rightarrow> string \<Rightarrow> jsvalue" where
  "getProp (JObj kvs) k = (case map_of kvs k of None \<Rightarrow> Undefined | Some v \<Rightarrow> Value v)"
| "getProp (JArr xs) k = (if k = ''keys'' then Method else Undefined)"
| "getProp _ k = Undefined"

fun js_truthy :: "jsvalue \<Rightarrow> bool" where
  "js_truthy Undefined = False"
| "js_truthy Method = True"
| "js_truthy (Value JNull) = False"
| "js_truthy (Value (JBool b)) = b"
| "js_truthy (Value (JNum x)) = (x \<noteq> 0)"
| "js_truthy (Value (JStr t)) = (t \<noteq> [])"
| "js_truthy (Value (JArr xs)) = True"
| "js_truthy (Value (JObj kvs)) = True"

text \<open>A property in an object literal that is stringified: \<open>undefined\<close> and methods are left out.\<close>

definition objField :: "string \<Rightarrow> jsvalue \<Rightarrow> (string \<times> json) list" where
  "objField k v = (case v of Value j \<Rightarrow> [(k, j)] | _ \<Rightarrow> [])"

definition apiResponse :: "js_env \<Rightarrow> string \<Rightarrow> json \<Rightarrow> message" where
  "apiResponse env requestId response =
     \<lparr>mtype = ''api_response'', role = None, session = None, payload = None,
      meta = Some [''requestId'' \<mapsto> requestId,
                   ''payload'' \<mapsto> json_stringify env response]\<rparr>"

definition sendApiResponse :: "js_env \<Rightarrow> bool \<Rightarrow> string \<Rightarrow> json \<Rightarrow> api_client \<Rightarrow> api_client" where
  "sendApiResponse env throws requestId response a =
     snd (send throws (apiResponse env requestId response) a)"

definition failure :: "string \<Rightarrow> json" where
  "failure msg = JObj [(''success'', JBool False), (''error'', JStr msg)]"

definition handleSendKeys :: "js_env \<Rightarrow> bool \<Rightarrow> message \<Rightarrow> api_client \<Rightarrow> api_client" where
  "handleSendKeys env throws m a =
     (if \<not> truthy (meta_get m ''requestId'') then a
      else
        (let requestId = the (meta_get m ''requestId'');
             parsed = (if truthy (meta_get m ''payload'')
                       then json_parse env (the (meta_get m ''payload''))
                       else Inr (JObj []))
         in case parsed of
              Inl msg \<Rightarrow> sendApiResponse env throws requestId (failure msg) a
            | Inr JNull \<Rightarrow> sendApiResponse env throws requestId (failure (null_message env)) a
            | Inr pl \<Rightarrow>
                (let target = getProp pl ''target'';
                     keys = getProp pl ''keys'';
                     enter = (case getProp pl ''enter'' of
                                Undefined \<Rightarrow> Value (JBool True) | v \<Rightarrow> v)
                 in if \<not> js_truthy target \<or> \<not> js_truthy keys then
                      sendApiResponse env throws requestId
                        (failure ''target and keys are required'') a
                    else
                      (let a1 = a\<lparr>sendKeysCalls := sendKeysCalls a @ [(target, keys, enter)]\<rparr>
                       in case tmux_sendKeys env target keys enter of
                            Inl msg \<Rightarrow> sendApiResponse env throws requestId (failure msg) a1
                          | Inr success \<Rightarrow>
                              sendApiResponse env throws requestId
                                (JObj ((''success'', JBool success) # objField ''target'' target))
                                a1))))"

text \<open>
  A runtime and a client to run examples with. The parser knows three payloads; the printer
  writes an object of strings, booleans and \<open>null\<close> as JSON text, without escaping;
  \<open>tmux.sendKeys\<close> succeeds; the message for \<open>null\<close> is the one V8 gives. The client is
  connected on an open socket.
\<close>

definition examplePrint :: "json \<Rightarrow> string" where
  \<open>examplePrint j =
     (let atom = (\<lambda>v. case v of
                         JNull \<Rightarrow> ''null''
                       | JBool b \<Rightarrow> (if b then ''true'' else ''false'')
                       | JStr t \<Rightarrow> ''"'' @ t @ ''"''
                       | _ \<Rightarrow> ''?'')
      in case j of
           JObj kvs \<Rightarrow>
             ''{'' @ butlast (concat (map (\<lambda>kv. ''"'' @ fst kv @ ''":'' @ atom (snd kv) @ '','') kvs))
               @ ''}''
         | _ \<Rightarrow> atom j)\<close>

definition exampleParse :: "string \<Rightarrow> string + json" where
  \<open>exampleParse p =
     (if p = ''null'' then Inr JNull
      else if p = ''{"target":"dev","keys":"ls"}''
        then Inr (JObj [(''target'', JStr ''dev''), (''keys'', JStr ''ls'')])
      else if p = ''{"target":"dev"}'' then Inr (JObj [(''target'', JStr ''dev'')])
      else Inl ''Unexpected token'')\<close>

definition exampleSendKeys :: "jsvalue \<Rightarrow> jsvalue \<Rightarrow> jsvalue \<Rightarrow> string + bool" where
  "exampleSendKeys target keys enter = Inr True"

definition exampleEnv :: js_env where
  "exampleEnv =
     \<lparr>json_parse = exampleParse, json_stringify = examplePrint,
      null_message = ''Cannot destructure property 'target' of 'payload' as it is null.'',
      tmux_sendKeys = exampleSendKeys\<rparr>"

definition exampleApi :: api_client where
  "exampleApi =
     (apiClient exampleConfig (Some ''agent''))\<lparr>ws := Some 0, isConnected := True, sockets := [OPEN]\<rparr>"

definition sendKeysRequest :: "string \<Rightarrow> string option \<Rightarrow> message" where
  "sendKeysRequest requestId p =
     \<lparr>mtype = ''send_keys'', role = None, session = None, payload = None,
      meta = Some (case p of
                     None \<Rightarrow> [''requestId'' \<mapsto> requestId]
                   | Some t \<Rightarrow> [''requestId'' \<mapsto> requestId, ''payload'' \<mapsto> t])\<rparr>"

section \<open>The invariant of the Link's state machine\<close>

lemma filter_update_length:
  "i < length xs \<Longrightarrow>
   length (filter P (xs[i := x])) + (if P (xs ! i) then 1 else 0) =
   length (filter P xs) + (if P x then 1 else 0)"
proof (induction xs arbitrary: i)
  case Nil
  then show ?case by simp
next
  case (Cons a xs)
  then show ?case by (cases i) auto
qed

lemma live_close:
  "readyStateOf s i \<noteq> CLOSED \<Longrightarrow> Suc (live (s\<lparr>sockets := (sockets s)[i := CLOSED]\<rparr>)) = live s"
  using filter_update_length [of i "sockets s" "\<lambda>st. st \<noteq> CLOSED" CLOSED]
  by (auto simp: live_def readyStateOf_def split: if_splits)

lemma live_keep:
  "readyStateOf s i \<noteq> CLOSED \<Longrightarrow> x \<noteq> CLOSED \<Longrightarrow> live (s\<lparr>sockets := (sockets s)[i := x]\<rparr>) = live s"
  using filter_update_length [of i "sockets s" "\<lambda>st. st \<noteq> CLOSED" x]
  by (auto simp: live_def readyStateOf_def split: if_splits)

lemma sched_inv:
  "live s = 0 \<Longrightarrow> timers s = [] \<Longrightarrow> (circuitBreakerOpen s \<longrightarrow> reconnectAttempts s = 0) \<Longrightarrow>
   link_inv (scheduleReconnect now r s)"
  by (auto simp: link_inv_def scheduleReconnect_def setTimeout_def live_def Let_def MAX_RECONNECT_ATTEMPTS_def)


lemma inv_basic:
  "live s = 0 \<Longrightarrow> timers s = [] \<Longrightarrow> (circuitBreakerOpen s \<longrightarrow> reconnectAttempts s = 0) \<Longrightarrow> link_inv s"
  by (simp add: link_inv_def)

lemma send_conn [simp]:
  "live (snd (send t m s)) = live s" "timers (snd (send t m s)) = timers s"
  "circuitBreakerOpen (snd (send t m s)) = circuitBreakerOpen s"
  "reconnectAttempts (snd (send t m s)) = reconnectAttempts s"
  by (auto simp: send_def live_def split: option.splits)

lemma emit_conn [simp]:
  "live (emit e s) = live s" "timers (emit e s) = timers s"
  "circuitBreakerOpen (emit e s) = circuitBreakerOpen s"
  "reconnectAttempts (emit e s) = reconnectAttempts s"
  "destroyed (emit e s) = destroyed s" "autoReconnect (emit e s) = autoReconnect s"
  "isConnected (emit e s) = isConnected s" "sockets (emit e s) = sockets s"
  by (auto simp: emit_def live_def)

lemma inv_emit: "link_inv (emit e s) = link_inv s"
  by (simp add: link_inv_def)


lemma inv_connect:
  assumes "live s = 0" "timers s = []" "\<not> circuitBreakerOpen s"
  shows "link_inv (connect t now r s)"
proof (cases "destroyed s \<or> \<not> t")
  case True
  with assms show ?thesis
    by (auto simp: connect_def link_inv_def live_def)
next
  case False
  show ?thesis
  proof (cases "autoReconnect s")
    case True
    have "link_inv (scheduleReconnect now r (emit ErrorEvent s))"
      by (rule sched_inv) (simp_all add: assms)
    with False True show ?thesis by (simp add: connect_def Let_def)
  next
    case f: False
    with False assms show ?thesis
      by (simp add: connect_def Let_def inv_emit inv_basic)
  qed
qed

lemma destroy_fields:
  "live (destroy s) = live s"
  "circuitBreakerOpen (destroy s) = circuitBreakerOpen s"
  "reconnectAttempts (destroy s) = reconnectAttempts s"
  "set (timers (destroy s)) \<subseteq> set (timers s)"
  "length (timers (destroy s)) \<le> length (timers s)"
proof -
  have k: "live (closeSocket i x) = live x" for i and x :: link
    using live_keep [of x i CLOSING] by (simp add: closeSocket_def)
  have c: "live (x\<lparr>ws := None\<rparr>) = live x" for x :: link
    by (simp add: live_def)
  show "live (destroy s) = live s"
    by (simp add: destroy_def Let_def clearTimeout_def k c split: option.splits)
       (simp add: live_def)
  show "circuitBreakerOpen (destroy s) = circuitBreakerOpen s"
    by (simp add: destroy_def Let_def clearTimeout_def closeSocket_def split: option.splits)
  show "reconnectAttempts (destroy s) = reconnectAttempts s"
    by (simp add: destroy_def Let_def clearTimeout_def closeSocket_def split: option.splits)
  show "set (timers (destroy s)) \<subseteq> set (timers s)"
    by (auto simp: destroy_def Let_def clearTimeout_def closeSocket_def split: option.splits)
  show "length (timers (destroy s)) \<le> length (timers s)"
    by (simp add: destroy_def Let_def clearTimeout_def closeSocket_def split: option.splits)
qed

lemma inv_destroy: 
  assumes "link_inv s" shows "link_inv (destroy s)"
proof -
  have "live (destroy s) + length (timers (destroy s)) \<le> 1"
    using assms destroy_fields(5) [of s] by (simp add: link_inv_def destroy_fields(1))
  moreover have "\<forall>t \<in> set (timers (destroy s)). fst (snd t) = Reschedule"
    if "circuitBreakerOpen s"
    using assms that destroy_fields(4) [of s] by (auto simp: link_inv_def)
  ultimately show ?thesis
    using assms by (simp add: link_inv_def destroy_fields)
qed


lemma inv_upd [simp]:
  "link_inv (s\<lparr>console := c\<rparr>) = link_inv s"
  "link_inv (s\<lparr>exitCode := x\<rparr>) = link_inv s"
  "link_inv (s\<lparr>autoReconnect := b\<rparr>) = link_inv s"
  "link_inv (s\<lparr>isConnected := b\<rparr>) = link_inv s"
  by (simp_all add: link_inv_def live_def)

lemma inv_handleError: "link_inv s \<Longrightarrow> link_inv (handleError m s)"
  by (simp add: handleError_def Let_def inv_destroy split: option.splits)

lemma inv_handleMessage: "link_inv s \<Longrightarrow> link_inv (handleMessage pint m s)"
  by (simp add: handleMessage_def inv_emit inv_handleError split: option.splits prod.splits)

lemma inv_on_message: "link_inv s \<Longrightarrow> link_inv (on_message pint d s)"
  by (simp add: on_message_def inv_handleMessage split: option.splits)

lemma inv_on_open:
  assumes "link_inv s" "readyStateOf s i = CONNECTING"
  shows "link_inv (on_open t (s\<lparr>sockets := (sockets s)[i := OPEN]\<rparr>))"
proof -
  have "live (s\<lparr>sockets := (sockets s)[i := OPEN]\<rparr>) = live s"
    using assms(2) by (simp add: live_keep)
  then show ?thesis
    using assms(1)
    by (simp add: on_open_def registerAsHost_def Let_def link_inv_def)
       (simp add: live_def)
qed

lemma inv_on_close:
  assumes "link_inv s" "readyStateOf s i \<noteq> CLOSED"
  shows "link_inv (on_close code reason now r (s\<lparr>sockets := (sockets s)[i := CLOSED]\<rparr>))"
proof -
  let ?s = "s\<lparr>sockets := (sockets s)[i := CLOSED]\<rparr>"
  have l: "Suc (live ?s) = live s" using assms(2) by (rule live_close)
  from assms(1) have b: "live s + length (timers s) \<le> 1" by (simp add: link_inv_def)
  with l have "live ?s = 0" "length (timers s) = 0" by arith+
  moreover from assms(1) l have "\<not> circuitBreakerOpen s" by (auto simp: link_inv_def)
  ultimately have z: "live ?s = 0" "timers s = []" "\<not> circuitBreakerOpen s"
    by simp_all
  let ?s1 = "emit (Disconnected code reason) (?s\<lparr>isConnected := False\<rparr>)"
  have p: "live ?s1 = 0" "timers ?s1 = []" "\<not> circuitBreakerOpen ?s1"
    using z by (simp_all add: live_def)
  show ?thesis
  proof (cases "autoReconnect ?s1 \<and> \<not> destroyed ?s1")
    case True
    have "link_inv (scheduleReconnect now r ?s1)"
      by (rule sched_inv) (use p in simp_all)
    with True show ?thesis by (simp add: on_close_def Let_def)
  next
    case False
    have "link_inv ?s1" by (rule inv_basic) (use p in simp_all)
    with False show ?thesis by (auto simp add: on_close_def Let_def)
  qed
qed

lemma pending_mem: "pending h s = Some cb \<Longrightarrow> \<exists>d. (h, cb, d) \<in> set (timers s)"
  by (auto simp: pending_def dest!: map_of_SomeD)

lemma inv_timer:
  assumes "link_inv s" "pending h s = Some cb"
  shows "link_inv (run_callback cb t now r (clearTimeout h s))"
proof -
  obtain d where m: "(h, cb, d) \<in> set (timers s)" using assms(2) pending_mem by blast
  then have "0 < length (timers s)" by (cases "timers s") auto
  moreover from assms(1) have "live s + length (timers s) \<le> 1" by (simp add: link_inv_def)
  ultimately have one: "length (timers s) = 1" "live s = 0" by arith+
  with m have ts: "timers s = [(h, cb, d)]" by (cases "timers s") auto
  let ?s = "clearTimeout h s"
  have p: "live ?s = 0" "timers ?s = []" "circuitBreakerOpen ?s = circuitBreakerOpen s"
    "reconnectAttempts ?s = reconnectAttempts s"
    using one ts by (simp_all add: clearTimeout_def live_def)
  have q: "circuitBreakerOpen s \<longrightarrow> reconnectAttempts s = 0 \<and> cb = Reschedule"
    using assms(1) ts by (simp add: link_inv_def)
  show ?thesis
  proof (cases cb)
    case Reschedule
    have "link_inv (scheduleReconnect now r ?s)"
      by (rule sched_inv) (use p q in simp_all)
    with Reschedule show ?thesis by (simp add: run_callback_def)
  next
    case Reconnect
    with q have nc: "\<not> circuitBreakerOpen ?s" using p by auto
    have a: "link_inv (connect t now r ?s)"
      by (rule inv_connect) (use p nc in simp_all)
    have b: "link_inv ?s" by (rule inv_basic) (use p nc in simp_all)
    from Reconnect a b show ?thesis by (simp add: run_callback_def)
  qed
qed

lemma inv_step: "link_inv s \<Longrightarrow> link_inv (step pint e s)"
  by (cases e)
     (simp_all add: step_def inv_on_open inv_on_message inv_emit inv_on_close inv_timer inv_destroy
        split: option.splits)

lemma inv_start: "link_inv (connect t now r (constructor opts))"
  by (rule inv_connect) (simp_all add: constructor_def live_def)

lemma reachable_inv: "reachable pint s \<Longrightarrow> link_inv s"
  by (induction rule: reachable.induct) (simp_all add: inv_start inv_step)

section \<open>Facts about \<open>scheduleReconnect\<close>\<close>

lemma backoffDelay_small:
  assumes "1 \<le> n" "n \<le> 5"
  shows "backoffDelay n = 2000 * 2 ^ (n - 1)"
proof -
  have e: "int n - 1 = int (n - 1)" using assms by simp
  have "(2::real) ^ (n - 1) \<le> 2 ^ 4"
    using assms by (intro power_increasing) simp_all
  then have "(2000::real) * 2 ^ (n - 1) \<le> 60000" by simp
  then show ?thesis
    by (simp add: backoffDelay_def BASE_RECONNECT_DELAY_MS_def MAX_RECONNECT_DELAY_MS_def e
        power_int_of_nat del: of_nat_diff)
qed

lemma sched_backoff:
  assumes "\<not> destroyed s" "\<not> circuitBreakerOpen s \<or> circuitBreakerResetTime s \<le> now"
    and "n = (if circuitBreakerOpen s then 1 else reconnectAttempts s + 1)" "n \<le> 5"
  shows "scheduleReconnect now r s =
         s\<lparr>circuitBreakerOpen := False, reconnectAttempts := n,
           timers := timers s @ [(nextTimer s, Reconnect, reconnectDelay n r)],
           nextTimer := Suc (nextTimer s), reconnectTimer := Some (nextTimer s)\<rparr>"
  using assms
  by (auto simp: scheduleReconnect_def setTimeout_def Let_def MAX_RECONNECT_ATTEMPTS_def)

lemma sched_trip:
  assumes "\<not> destroyed c" "\<not> circuitBreakerOpen c"
  shows "circuitBreakerOpen (scheduleReconnect now r c) \<longleftrightarrow> MAX_RECONNECT_ATTEMPTS \<le> reconnectAttempts c"
    and "MAX_RECONNECT_ATTEMPTS \<le> reconnectAttempts c \<Longrightarrow>
         scheduleReconnect now r c =
           c\<lparr>reconnectAttempts := 0, circuitBreakerOpen := True,
             circuitBreakerResetTime := now + 120000,
             timers := timers c @ [(nextTimer c, Reschedule, 120000)],
             nextTimer := Suc (nextTimer c), reconnectTimer := Some (nextTimer c)\<rparr>"
  using assms
  by (auto simp: scheduleReconnect_def setTimeout_def Let_def MAX_RECONNECT_ATTEMPTS_def
      CIRCUIT_BREAKER_DURATION_MS_def)

lemma sched_wait:
  assumes "\<not> destroyed c" "circuitBreakerOpen c" "now < circuitBreakerResetTime c"
  shows "scheduleReconnect now r c =
           c\<lparr>timers := timers c @ [(nextTimer c, Reschedule, circuitBreakerResetTime c - now)],
             nextTimer := Suc (nextTimer c), reconnectTimer := Some (nextTimer c)\<rparr>"
  using assms by (simp add: scheduleReconnect_def setTimeout_def)

lemma sched_sockets [simp]: "sockets (scheduleReconnect now r c) = sockets c"
  by (simp add: scheduleReconnect_def setTimeout_def Let_def)

lemma sched_stays_open:
  "circuitBreakerOpen c \<Longrightarrow> \<not> circuitBreakerOpen (scheduleReconnect now r c) \<Longrightarrow>
   circuitBreakerResetTime c \<le> now"
  by (auto simp: scheduleReconnect_def setTimeout_def Let_def split: if_splits)

lemma live_zero: "live s = 0 \<Longrightarrow> readyStateOf s i = CLOSED"
  by (auto simp: live_def readyStateOf_def filter_empty_conv)

lemma destroy_sockets: "length (sockets (destroy s)) = length (sockets s)"
  by (simp add: destroy_def Let_def clearTimeout_def closeSocket_def split: option.splits)

lemma open_step:
  assumes "link_inv s" "circuitBreakerOpen s"
  shows "length (sockets (step pint e s)) = length (sockets s) \<and>
         (\<not> circuitBreakerOpen (step pint e s) \<longrightarrow>
            (\<exists>h t now r. e = TimerFires h t now r \<and> circuitBreakerResetTime s \<le> now))"
proof -
  from assms have z: "live s = 0" and ts: "\<forall>t \<in> set (timers s). fst (snd t) = Reschedule"
    by (auto simp: link_inv_def)
  have cl: "readyStateOf s i = CLOSED" for i using z by (rule live_zero)
  show ?thesis
  proof (cases e)
    case (TimerFires h t now r)
    show ?thesis
    proof (cases "pending h s")
      case None
      with TimerFires assms(2) show ?thesis by (simp add: step_def)
    next
      case (Some cb)
      then obtain d where "(h, cb, d) \<in> set (timers s)" using pending_mem by blast
      with ts have cb: "cb = Reschedule" by auto
      have o: "circuitBreakerOpen (clearTimeout h s)"
        "circuitBreakerResetTime (clearTimeout h s) = circuitBreakerResetTime s"
        using assms(2) by (simp_all add: clearTimeout_def)
      have "\<not> circuitBreakerOpen (scheduleReconnect now r (clearTimeout h s)) \<longrightarrow>
            circuitBreakerResetTime s \<le> now"
        using sched_stays_open [OF o(1)] o(2) by auto
      with TimerFires Some cb assms(2) show ?thesis
        by (auto simp: step_def run_callback_def clearTimeout_def)
    qed
  next
    case Destroy
    with assms(2) show ?thesis
      by (simp add: step_def destroy_sockets destroy_fields)
  qed (use assms(2) cl in \<open>simp_all add: step_def\<close>)
qed


lemma reachable_fold: "reachable pint s \<Longrightarrow> reachable pint (fold (step pint) es s)"
  by (induction es arbitrary: s) (simp_all add: reach_step)

section \<open>Reconnect delay\<close>



section \<open>Circuit breaker\<close>

text \<open>
  Claim C2. A call of \<open>scheduleReconnect\<close> on a Link that is not destroyed and whose breaker
  is closed trips the breaker exactly when the incremented attempt counter exceeds 5; it
  then sets the counter to 0, sets the reset time to the clock reading plus 120000 ms and
  arms one timer of 120000 ms that calls \<open>scheduleReconnect\<close> again. In every reachable
  state with the breaker open the attempt counter is 0, no event constructs a socket, for
  any outcome of \<open>new WebSocket\<close> (so \<open>connect()\<close> is not called), and the breaker can be
  closed only by a timer that reads a clock value at or after the reset time.
\<close>

theorem circuit_breaker_invariant:
  fixes c s :: link
  shows "(\<not> destroyed c \<and> \<not> circuitBreakerOpen c \<longrightarrow>
            (circuitBreakerOpen (scheduleReconnect now r c) \<longleftrightarrow>
               MAX_RECONNECT_ATTEMPTS < reconnectAttempts c + 1) \<and>
            (MAX_RECONNECT_ATTEMPTS < reconnectAttempts c + 1 \<longrightarrow>
               scheduleReconnect now r c =
                 c\<lparr>reconnectAttempts := 0, circuitBreakerOpen := True,
                   circuitBreakerResetTime := now + 120000,
                   timers := timers c @ [(nextTimer c, Reschedule, 120000)],
                   nextTimer := Suc (nextTimer c), reconnectTimer := Some (nextTimer c)\<rparr>)) \<and>
         (reachable pint s \<and> circuitBreakerOpen s \<longrightarrow>
            reconnectAttempts s = 0 \<and>
            (\<forall>e. length (sockets (step pint e s)) = length (sockets s) \<and>
                 (\<not> circuitBreakerOpen (step pint e s) \<longrightarrow>
                    (\<exists>h t now' r'. e = TimerFires h t now' r' \<and>
                       circuitBreakerResetTime s \<le> now'))))"
proof -
  have a: "MAX_RECONNECT_ATTEMPTS < reconnectAttempts c + 1 \<longleftrightarrow>
           MAX_RECONNECT_ATTEMPTS \<le> reconnectAttempts c" by auto
  have "reconnectAttempts s = 0 \<and>
        (\<forall>e. length (sockets (step pint e s)) = length (sockets s) \<and>
             (\<not> circuitBreakerOpen (step pint e s) \<longrightarrow>
                (\<exists>h t now' r'. e = TimerFires h t now' r' \<and>
                   circuitBreakerResetTime s \<le> now')))"
    if r: "reachable pint s" and o: "circuitBreakerOpen s"
  proof -
    have i: "link_inv s" using r by (rule reachable_inv)
    with o have "reconnectAttempts s = 0" by (simp add: link_inv_def)
    with open_step [OF i o] show ?thesis by blast
  qed
  then show ?thesis
    unfolding a using sched_trip [of c now r] by blast
qed

theorem circuit_breaker_invariant_witness:
  "(let opts = \<lparr>opt_url = ''wss://relay'', opt_sessionId = ''m/dev'', opt_machineId = ''m'',
                 opt_token = [], opt_label = None, opt_autoReconnect = None\<rparr>;
        c = (constructor opts)\<lparr>reconnectAttempts := 5\<rparr>;
        s = fold (step (\<lambda>t. None))
              [SockClose 0 1006 [] 1000 0, TimerFires 0 False 3000 0,
               SockClose 1 1006 [] 3100 0, TimerFires 1 False 7100 0,
               SockClose 2 1006 [] 7200 0, TimerFires 2 False 15200 0,
               SockClose 3 1006 [] 15300 0, TimerFires 3 False 31300 0,
               SockClose 4 1006 [] 31400 0, TimerFires 4 False 63400 0,
               SockClose 5 1006 [] 63500 0]
              (connect False 0 0 (constructor opts))
    in \<not> destroyed c \<and> \<not> circuitBreakerOpen c \<and>
       MAX_RECONNECT_ATTEMPTS < reconnectAttempts c + 1 \<and>
       circuitBreakerOpen (scheduleReconnect 500 0 c) \<and>
       circuitBreakerResetTime (scheduleReconnect 500 0 c) = 120500 \<and>
       reachable (\<lambda>t. None) s \<and> circuitBreakerOpen s \<and> reconnectAttempts s = 0 \<and>
       circuitBreakerResetTime s = 183500 \<and>
       timers s = [(5, Reschedule, 120000)] \<and>
       length (sockets (step (\<lambda>t. None) (TimerFires 5 False 183499 0) s)) = length (sockets s) \<and>
       circuitBreakerOpen (step (\<lambda>t. None) (TimerFires 5 False 183499 0) s))"
proof -
  define opts where "opts = \<lparr>opt_url = ''wss://relay'', opt_sessionId = ''m/dev'',
    opt_machineId = ''m'', opt_token = [], opt_label = None, opt_autoReconnect = None\<rparr>"
  define c where "c = (constructor opts)\<lparr>reconnectAttempts := 5\<rparr>"
  define es where "es = [SockClose 0 1006 [] 1000 0, TimerFires 0 False 3000 0,
               SockClose 1 1006 [] 3100 0, TimerFires 1 False 7100 0,
               SockClose 2 1006 [] 7200 0, TimerFires 2 False 15200 0,
               SockClose 3 1006 [] 15300 0, TimerFires 3 False 31300 0,
               SockClose 4 1006 [] 31400 0, TimerFires 4 False 63400 0,
               SockClose 5 1006 [] 63500 0]"
  define s where "s = fold (step (\<lambda>t. None)) es (connect False 0 0 (constructor opts))"
  have r: "reachable (\<lambda>t. None) s"
    unfolding s_def by (rule reachable_fold) (rule reach_start)
  have o: "circuitBreakerOpen s \<and> circuitBreakerResetTime s = 183500 \<and>
           timers s = [(5, Reschedule, 120000)]"
    unfolding s_def es_def opts_def
    by (simp add: step_def connect_def constructor_def readyStateOf_def on_close_def emit_def
        scheduleReconnect_def setTimeout_def Let_def pending_def clearTimeout_def
        run_callback_def truthy_def MAX_RECONNECT_ATTEMPTS_def CIRCUIT_BREAKER_DURATION_MS_def)
  have c1: "\<not> destroyed c \<and> \<not> circuitBreakerOpen c \<and>
            MAX_RECONNECT_ATTEMPTS < reconnectAttempts c + 1"
    by (simp add: c_def opts_def constructor_def MAX_RECONNECT_ATTEMPTS_def)
  note t = circuit_breaker_invariant [of c 500 0 "\<lambda>t. None" s]
  from t c1 have t1: "circuitBreakerOpen (scheduleReconnect 500 0 c)"
    "circuitBreakerResetTime (scheduleReconnect 500 0 c) = 120500" by auto
  from t r o have t2: "reconnectAttempts s = 0"
    "length (sockets (step (\<lambda>t. None) (TimerFires 5 False 183499 0) s)) = length (sockets s)"
    "circuitBreakerOpen (step (\<lambda>t. None) (TimerFires 5 False 183499 0) s)"
    by auto
  show ?thesis
    using c1 t1 t2 r o
    unfolding Let_def opts_def [symmetric] c_def [symmetric] es_def [symmetric] s_def [symmetric]
    by blast
qed

section \<open>One socket per Link\<close>

lemma reachable_live: "reachable pint s \<Longrightarrow> live s \<le> 1"
  by (drule reachable_inv) (simp add: link_inv_def)

text \<open>
  Claim C5, as stated, fails: \<open>connect()\<close> tests only \<open>destroyed\<close>. A second call on a Link
  whose first socket is still connecting constructs a second socket, so the two calls do
  not give the state that one call gives, and two sockets are live.
\<close>

theorem connect_twice_counterexample:
  "live (connect False 0 0 (constructor
      \<lparr>opt_url = ''wss://relay'', opt_sessionId = ''m/dev'', opt_machineId = ''m'',
       opt_token = [], opt_label = None, opt_autoReconnect = None\<rparr>)) = 1 \<and>
   readyStateOf (connect False 0 0 (constructor
      \<lparr>opt_url = ''wss://relay'', opt_sessionId = ''m/dev'', opt_machineId = ''m'',
       opt_token = [], opt_label = None, opt_autoReconnect = None\<rparr>)) 0 = CONNECTING \<and>
   live (connect False 0 0 (connect False 0 0 (constructor
      \<lparr>opt_url = ''wss://relay'', opt_sessionId = ''m/dev'', opt_machineId = ''m'',
       opt_token = [], opt_label = None, opt_autoReconnect = None\<rparr>))) = 2 \<and>
   connect False 0 0 (connect False 0 0 (constructor
      \<lparr>opt_url = ''wss://relay'', opt_sessionId = ''m/dev'', opt_machineId = ''m'',
       opt_token = [], opt_label = None, opt_autoReconnect = None\<rparr>)) \<noteq>
   connect False 0 0 (constructor
      \<lparr>opt_url = ''wss://relay'', opt_sessionId = ''m/dev'', opt_machineId = ''m'',
       opt_token = [], opt_label = None, opt_autoReconnect = None\<rparr>)"
  by (simp add: connect_def constructor_def live_def readyStateOf_def truthy_def)

text \<open>
  Claim C5, amended. \<open>connect()\<close> does nothing once the Link is destroyed. On a Link that is
  not destroyed each call in which \<open>new WebSocket\<close> succeeds constructs one more socket and
  stores it in \<open>ws\<close>; the socket that \<open>ws\<close> held before is not closed. The Link's own
  reconnect timer does not call \<open>connect()\<close> when the Link is connected or destroyed, and in
  every state reachable from one call of \<open>connect()\<close> on a new Link by socket events, timers
  and \<open>destroy()\<close>, at most one socket is not closed.
\<close>

theorem connect_single_socket:
  fixes s u :: link
  shows "(destroyed s \<longrightarrow> connect t now r s = s) \<and>
         (\<not> destroyed s \<longrightarrow>
            connect False now r s =
              s\<lparr>ws := Some (length (sockets s)), sockets := sockets s @ [CONNECTING]\<rparr> \<and>
            live (connect False now r s) = live s + 1) \<and>
         (isConnected s \<or> destroyed s \<longrightarrow> run_callback Reconnect t now r s = s) \<and>
         (reachable pint u \<longrightarrow> live u \<le> 1)"
proof -
  have a: "destroyed s \<longrightarrow> connect t now r s = s"
    by (simp add: connect_def)
  have b: "\<not> destroyed s \<longrightarrow>
            connect False now r s =
              s\<lparr>ws := Some (length (sockets s)), sockets := sockets s @ [CONNECTING]\<rparr> \<and>
            live (connect False now r s) = live s + 1"
    by (simp add: connect_def live_def)
  have c: "isConnected s \<or> destroyed s \<longrightarrow> run_callback Reconnect t now r s = s"
    by (auto simp: run_callback_def)
  have d: "reachable pint u \<longrightarrow> live u \<le> 1"
    using reachable_live [of pint u] by blast
  from a b c d show ?thesis by blast
qed

theorem connect_single_socket_witness:
  "destroyed (destroy (constructor
      \<lparr>opt_url = ''wss://relay'', opt_sessionId = ''m/dev'', opt_machineId = ''m'',
       opt_token = [], opt_label = None, opt_autoReconnect = None\<rparr>)) \<and>
   connect False 0 0 (destroy (constructor
      \<lparr>opt_url = ''wss://relay'', opt_sessionId = ''m/dev'', opt_machineId = ''m'',
       opt_token = [], opt_label = None, opt_autoReconnect = None\<rparr>)) =
   destroy (constructor
      \<lparr>opt_url = ''wss://relay'', opt_sessionId = ''m/dev'', opt_machineId = ''m'',
       opt_token = [], opt_label = None, opt_autoReconnect = None\<rparr>) \<and>
   \<not> destroyed (constructor
      \<lparr>opt_url = ''wss://relay'', opt_sessionId = ''m/dev'', opt_machineId = ''m'',
       opt_token = [], opt_label = None, opt_autoReconnect = None\<rparr>) \<and>
   live (connect False 0 0 (constructor
      \<lparr>opt_url = ''wss://relay'', opt_sessionId = ''m/dev'', opt_machineId = ''m'',
       opt_token = [], opt_label = None, opt_autoReconnect = None\<rparr>)) = 1 \<and>
   reachable (\<lambda>t. None) (connect False 0 0 (constructor
      \<lparr>opt_url = ''wss://relay'', opt_sessionId = ''m/dev'', opt_machineId = ''m'',
       opt_token = [], opt_label = None, opt_autoReconnect = None\<rparr>)) \<and>
   live (connect False 0 0 (constructor
      \<lparr>opt_url = ''wss://relay'', opt_sessionId = ''m/dev'', opt_machineId = ''m'',
       opt_token = [], opt_label = None, opt_autoReconnect = None\<rparr>)) \<le> 1"
proof -
  define o0 where "o0 = \<lparr>opt_url = ''wss://relay'', opt_sessionId = ''m/dev'',
    opt_machineId = ''m'', opt_token = [], opt_label = None, opt_autoReconnect = None\<rparr>"
  have d: "destroyed (destroy (constructor o0))" "\<not> destroyed (constructor o0)"
    by (simp_all add: destroy_def constructor_def Let_def)
  have l: "live (connect False 0 0 (constructor o0)) = 1"
    by (simp add: connect_def constructor_def live_def)
  have r: "reachable (\<lambda>t. None) (connect False 0 0 (constructor o0))"
    by (rule reach_start)
  note t1 = connect_single_socket [of "destroy (constructor o0)" False 0 0 "\<lambda>t. None"
      "connect False 0 0 (constructor o0)"]
  note t2 = connect_single_socket [of "constructor o0" False 0 0 "\<lambda>t. None"
      "connect False 0 0 (constructor o0)"]
  show ?thesis
    using t1 t2 d r l unfolding o0_def [symmetric] by blast
qed

section \<open>The limit-exceeded error\<close>

lemma destroy_flags:
  "destroyed (destroy s)" "\<not> autoReconnect (destroy s)" "ws (destroy s) = None"
  "reconnectTimer (destroy s) = None"
  "console (destroy s) = console s" "emitted (destroy s) = emitted s"
  "exitCode (destroy s) = exitCode s"
  by (simp_all add: destroy_def Let_def clearTimeout_def closeSocket_def split: option.splits)



section \<open>Facts about \<open>capture\<close>\<close>

lemma send_open:
  "ws c = Some i \<Longrightarrow> readyStateOf c i = OPEN \<Longrightarrow>
   send False m c = (True, c\<lparr>wire := wire c @ [(i, m)]\<rparr>)"
  by (simp add: send_def)

lemma send_failed:
  "ws c = None \<or> (\<exists>i. ws c = Some i \<and> readyStateOf c i \<noteq> OPEN) \<or> t \<Longrightarrow> send t m c = (False, c)"
  by (auto simp: send_def split: option.splits)


lemma capture_idle:
  assumes "running h" "connectedClient h"
    "\<not> (screen \<noteq> lastScreen h \<or> now - lastForceSendTime h \<ge> 10000)"
  shows "capture cd t (Snapshot screen) now h =
         h\<lparr>captureTimer := Some (if now - lastChangeTime h < 2000 then 50 else 200)\<rparr>"
  using assms
  by (simp add: capture_def Let_def FORCE_SEND_INTERVAL_MS_def
      ACTIVE_THRESHOLD_MS_def CAPTURE_INTERVAL_ACTIVE_MS_def CAPTURE_INTERVAL_IDLE_MS_def)

lemma capture_send:
  assumes "running h" "wsClient h = Some c" "isConnected c"
    "screen \<noteq> lastScreen h \<or> now - lastForceSendTime h \<ge> 10000"
  shows "capture cd t (Snapshot screen) now h =
         h\<lparr>lastScreen := screen, lastForceSendTime := now,
           lastChangeTime := (if screen \<noteq> lastScreen h then now else lastChangeTime h),
           wsClient := Some (snd (send t
             (let data = utf8 cd (clearHome @ screen)
              in if length data > 512 then
                   (case gzipSync cd data of
                      Some z \<Rightarrow> screenMessage ''screenGz'' (sessionId c) (base64 cd z)
                    | None \<Rightarrow> screenMessage ''screen'' (sessionId c) (base64 cd data))
                 else screenMessage ''screen'' (sessionId c) (base64 cd data)) c)),
           captureTimer := Some (if screen \<noteq> lastScreen h \<or> now - lastChangeTime h < 2000
                                 then 50 else 200)\<rparr>"
  using assms
  by (auto simp: capture_def Let_def FORCE_SEND_INTERVAL_MS_def
      ACTIVE_THRESHOLD_MS_def CAPTURE_INTERVAL_ACTIVE_MS_def CAPTURE_INTERVAL_IDLE_MS_def
      connectedClient_def USE_COMPRESSION_def MIN_COMPRESS_SIZE_def
      sendScreen_def sendScreenCompressed_def split: option.splits)

lemma frames_send_open:
  assumes "wsClient h = Some c" "ws c = Some i" "readyStateOf c i = OPEN"
  shows "frames (h\<lparr>lastScreen := a, lastForceSendTime := b, lastChangeTime := d,
                    wsClient := Some (snd (send False m c)), captureTimer := e\<rparr>) =
         frames h @ [m]"
  using assms by (simp add: frames_def send_open)

lemma frames_send_failed:
  assumes "wsClient h = Some c"
    "t \<or> ws c = None \<or> (\<exists>i. ws c = Some i \<and> readyStateOf c i \<noteq> OPEN)"
  shows "frames (h\<lparr>lastScreen := a, lastForceSendTime := b, lastChangeTime := d,
                    wsClient := Some (snd (send t m c)), captureTimer := e\<rparr>) =
         frames h"
  using assms send_failed [of c t m] by (auto simp: frames_def)

lemma example_facts:
  "running exampleHandler" "wsClient exampleHandler = Some exampleLink"
  "isConnected exampleLink" "ws exampleLink = Some 0" "readyStateOf exampleLink 0 = OPEN"
  "lastScreen exampleHandler = []" "lastForceSendTime exampleHandler = 0"
  "frames exampleHandler = []" "sessionId exampleLink = ''m/dev''"
  by (simp_all add: exampleHandler_def exampleLink_def newHandler_def constructor_def
      readyStateOf_def frames_def)

section \<open>When a snapshot is sent\<close>




section \<open>Compression of a frame\<close>

text \<open>
  Claim C7. When a tick decides to send (client connected on an open socket), exactly one
  frame is written. If the encoded payload (clear-and-home prefix plus snapshot, in UTF-8)
  is longer than 512 bytes and \<open>gzipSync\<close> succeeds, the frame has type \<open>screenGz\<close> and carries
  the compressed bytes; if \<open>gzipSync\<close> throws, the frame has type \<open>screen\<close> and carries the
  uncompressed bytes; a payload of at most 512 bytes is sent as type \<open>screen\<close>,
  uncompressed.
\<close>

theorem screen_frame_compression:
  assumes "running h" "wsClient h = Some c" "isConnected c" "ws c = Some i"
    "readyStateOf c i = OPEN"
    "screen \<noteq> lastScreen h \<or> now - lastForceSendTime h \<ge> 10000"
  shows "(length (utf8 cd (clearHome @ screen)) > 512 \<longrightarrow>
            (\<forall>z. gzipSync cd (utf8 cd (clearHome @ screen)) = Some z \<longrightarrow>
               frames (capture cd False (Snapshot screen) now h) =
                 frames h @ [\<lparr>mtype = ''screenGz'', role = None, session = Some (sessionId c),
                              payload = Some (base64 cd z), meta = None\<rparr>]) \<and>
            (gzipSync cd (utf8 cd (clearHome @ screen)) = None \<longrightarrow>
               frames (capture cd False (Snapshot screen) now h) =
                 frames h @ [\<lparr>mtype = ''screen'', role = None, session = Some (sessionId c),
                              payload = Some (base64 cd (utf8 cd (clearHome @ screen))),
                              meta = None\<rparr>])) \<and>
         (length (utf8 cd (clearHome @ screen)) \<le> 512 \<longrightarrow>
            frames (capture cd False (Snapshot screen) now h) =
              frames h @ [\<lparr>mtype = ''screen'', role = None, session = Some (sessionId c),
                           payload = Some (base64 cd (utf8 cd (clearHome @ screen))),
                           meta = None\<rparr>])"
  unfolding capture_send [OF assms(1,2,3,6)] frames_send_open [OF assms(2,4,5)]
  by (simp add: screenMessage_def)

theorem screen_frame_compression_witness:
  "running exampleHandler \<and> wsClient exampleHandler = Some exampleLink \<and>
   isConnected exampleLink \<and> ws exampleLink = Some 0 \<and> readyStateOf exampleLink 0 = OPEN \<and>
   replicate 600 CHR ''x'' \<noteq> lastScreen exampleHandler \<and>
   length (utf8 exampleCodec (clearHome @ replicate 600 CHR ''x'')) > 512 \<and>
   (\<exists>z. gzipSync exampleCodec (utf8 exampleCodec (clearHome @ replicate 600 CHR ''x'')) = Some z \<and>
     frames (capture exampleCodec False (Snapshot (replicate 600 CHR ''x'')) 0 exampleHandler) =
       [\<lparr>mtype = ''screenGz'', role = None, session = Some ''m/dev'',
         payload = Some (base64 exampleCodec z), meta = None\<rparr>]) \<and>
   replicate 1000 CHR ''x'' \<noteq> lastScreen exampleHandler \<and>
   length (utf8 exampleCodec (clearHome @ replicate 1000 CHR ''x'')) > 512 \<and>
   gzipSync exampleCodec (utf8 exampleCodec (clearHome @ replicate 1000 CHR ''x'')) = None \<and>
   frames (capture exampleCodec False (Snapshot (replicate 1000 CHR ''x'')) 0 exampleHandler) =
     [\<lparr>mtype = ''screen'', role = None, session = Some ''m/dev'',
       payload = Some (base64 exampleCodec (utf8 exampleCodec (clearHome @ replicate 1000 CHR ''x''))),
       meta = None\<rparr>] \<and>
   ''a'' \<noteq> lastScreen exampleHandler \<and>
   length (utf8 exampleCodec (clearHome @ ''a'')) \<le> 512 \<and>
   frames (capture exampleCodec False (Snapshot ''a'') 0 exampleHandler) =
     [\<lparr>mtype = ''screen'', role = None, session = Some ''m/dev'',
       payload = Some (base64 exampleCodec (utf8 exampleCodec (clearHome @ ''a''))),
       meta = None\<rparr>]"
proof -
  have n: "replicate 600 CHR ''x'' \<noteq> lastScreen exampleHandler"
    "replicate 1000 CHR ''x'' \<noteq> lastScreen exampleHandler"
    "''a'' \<noteq> lastScreen exampleHandler"
    by (simp_all add: example_facts)
  have l: "length (utf8 exampleCodec (clearHome @ replicate 600 CHR ''x'')) = 607"
    "length (utf8 exampleCodec (clearHome @ replicate 1000 CHR ''x'')) = 1007"
    "length (utf8 exampleCodec (clearHome @ ''a'')) = 8"
    by (simp_all add: exampleCodec_def clearHome_def)
  have g: "gzipSync exampleCodec (utf8 exampleCodec (clearHome @ replicate 600 CHR ''x'')) =
           Some (take 20 (utf8 exampleCodec (clearHome @ replicate 600 CHR ''x'')))"
    "gzipSync exampleCodec (utf8 exampleCodec (clearHome @ replicate 1000 CHR ''x'')) = None"
    using l(1,2) by (simp_all add: exampleCodec_def)
  note t = screen_frame_compression [OF example_facts(1-5), of _ 0 exampleCodec]
  from t [of "replicate 600 CHR ''x''"] n(1) l(1) g(1)
  have 1: "frames (capture exampleCodec False (Snapshot (replicate 600 CHR ''x'')) 0 exampleHandler) =
       [\<lparr>mtype = ''screenGz'', role = None, session = Some ''m/dev'',
         payload = Some (base64 exampleCodec
           (take 20 (utf8 exampleCodec (clearHome @ replicate 600 CHR ''x'')))), meta = None\<rparr>]"
    by (simp add: example_facts(8,9))
  from t [of "replicate 1000 CHR ''x''"] n(2) l(2) g(2)
  have 2: "frames (capture exampleCodec False (Snapshot (replicate 1000 CHR ''x'')) 0 exampleHandler) =
     [\<lparr>mtype = ''screen'', role = None, session = Some ''m/dev'',
       payload = Some (base64 exampleCodec (utf8 exampleCodec (clearHome @ replicate 1000 CHR ''x''))),
       meta = None\<rparr>]"
    by (simp add: example_facts(8,9))
  from t [of "''a''"] n(3) l(3)
  have 3: "frames (capture exampleCodec False (Snapshot ''a'') 0 exampleHandler) =
     [\<lparr>mtype = ''screen'', role = None, session = Some ''m/dev'',
       payload = Some (base64 exampleCodec (utf8 exampleCodec (clearHome @ ''a''))),
       meta = None\<rparr>]"
    by (simp add: example_facts(8,9))
  from example_facts(1-5) n l g 1 2 3 show ?thesis by simp
qed

section \<open>A send that fails\<close>

text \<open>
  Claim C10. On a tick where the send condition holds, \<open>lastScreen\<close> becomes the snapshot and
  \<open>lastForceSendTime\<close> the clock reading, whatever \<open>send\<close> returns. When \<open>ws.send\<close> throws or
  the socket is missing or not open, nothing is written. Whatever the client's state is
  afterwards, a later tick with the same snapshot less than 10000 ms after that tick writes
  nothing and keeps both fields: the frame is not retried.
\<close>

theorem capture_updates_despite_failed_send:
  assumes "running h" "wsClient h = Some c" "isConnected c"
    "screen \<noteq> lastScreen h \<or> now - lastForceSendTime h \<ge> 10000"
  shows "lastScreen (capture cd t (Snapshot screen) now h) = screen \<and>
         lastForceSendTime (capture cd t (Snapshot screen) now h) = now \<and>
         (t \<or> ws c = None \<or> (\<exists>i. ws c = Some i \<and> readyStateOf c i \<noteq> OPEN) \<longrightarrow>
            frames (capture cd t (Snapshot screen) now h) = frames h) \<and>
         (\<forall>c' t' now'. isConnected c' \<and> now' - now < 10000 \<longrightarrow>
            frames (capture cd t' (Snapshot screen) now'
                      ((capture cd t (Snapshot screen) now h)\<lparr>wsClient := Some c'\<rparr>)) =
              map snd (wire c') \<and>
            lastScreen (capture cd t' (Snapshot screen) now'
                      ((capture cd t (Snapshot screen) now h)\<lparr>wsClient := Some c'\<rparr>)) = screen \<and>
            lastForceSendTime (capture cd t' (Snapshot screen) now'
                      ((capture cd t (Snapshot screen) now h)\<lparr>wsClient := Some c'\<rparr>)) = now)"
proof -
  let ?h = "capture cd t (Snapshot screen) now h"
  note e = capture_send [OF assms, of cd t]
  have a: "lastScreen ?h = screen" "lastForceSendTime ?h = now" "running ?h"
    unfolding e using assms(1) by simp_all
  have b: "frames ?h = frames h"
    if "t \<or> ws c = None \<or> (\<exists>i. ws c = Some i \<and> readyStateOf c i \<noteq> OPEN)"
    unfolding e by (rule frames_send_failed [OF assms(2) that])
  have d: "frames (capture cd t' (Snapshot screen) now' (?h\<lparr>wsClient := Some c'\<rparr>)) =
             map snd (wire c') \<and>
           lastScreen (capture cd t' (Snapshot screen) now' (?h\<lparr>wsClient := Some c'\<rparr>)) = screen \<and>
           lastForceSendTime (capture cd t' (Snapshot screen) now' (?h\<lparr>wsClient := Some c'\<rparr>)) = now"
    if "isConnected c'" "now' - now < 10000" for c' t' now'
  proof -
    let ?g = "?h\<lparr>wsClient := Some c'\<rparr>"
    have r: "running ?g" "connectedClient ?g"
      using a(3) that(1) by (simp_all add: connectedClient_def)
    have n: "\<not> (screen \<noteq> lastScreen ?g \<or> now' - lastForceSendTime ?g \<ge> 10000)"
      using a(1,2) that(2) by simp
    show ?thesis
      unfolding capture_idle [OF r n] using a(1,2) by (simp add: frames_def)
  qed
  from a(1,2) b d show ?thesis by blast
qed


theorem capture_updates_despite_failed_send_witness:
  "running (exampleHandler\<lparr>wsClient := Some (exampleLink\<lparr>sockets := [CLOSING]\<rparr>)\<rparr>) \<and>
   isConnected (exampleLink\<lparr>sockets := [CLOSING]\<rparr>) \<and>
   ws (exampleLink\<lparr>sockets := [CLOSING]\<rparr>) = Some 0 \<and>
   readyStateOf (exampleLink\<lparr>sockets := [CLOSING]\<rparr>) 0 \<noteq> OPEN \<and>
   ''a'' \<noteq> lastScreen (exampleHandler\<lparr>wsClient := Some (exampleLink\<lparr>sockets := [CLOSING]\<rparr>)\<rparr>) \<and>
   lastScreen (capture exampleCodec False (Snapshot ''a'') 5
     (exampleHandler\<lparr>wsClient := Some (exampleLink\<lparr>sockets := [CLOSING]\<rparr>)\<rparr>)) = ''a'' \<and>
   lastForceSendTime (capture exampleCodec False (Snapshot ''a'') 5
     (exampleHandler\<lparr>wsClient := Some (exampleLink\<lparr>sockets := [CLOSING]\<rparr>)\<rparr>)) = 5 \<and>
   frames (capture exampleCodec False (Snapshot ''a'') 5
     (exampleHandler\<lparr>wsClient := Some (exampleLink\<lparr>sockets := [CLOSING]\<rparr>)\<rparr>)) = [] \<and>
   isConnected exampleLink \<and> (100::int) - 5 < 10000 \<and>
   frames (capture exampleCodec False (Snapshot ''a'') 100
     ((capture exampleCodec False (Snapshot ''a'') 5
        (exampleHandler\<lparr>wsClient := Some (exampleLink\<lparr>sockets := [CLOSING]\<rparr>)\<rparr>))
      \<lparr>wsClient := Some exampleLink\<rparr>)) = []"
proof -
  let ?c = "exampleLink\<lparr>sockets := [CLOSING]\<rparr>"
  let ?h = "exampleHandler\<lparr>wsClient := Some ?c\<rparr>"
  have p: "running ?h" "wsClient ?h = Some ?c" "isConnected ?c"
    "''a'' \<noteq> lastScreen ?h \<or> 5 - lastForceSendTime ?h \<ge> 10000"
    by (simp_all add: example_facts)
  have q: "ws ?c = Some 0" "readyStateOf ?c 0 \<noteq> OPEN" "''a'' \<noteq> lastScreen ?h"
    "frames ?h = []" "map snd (wire exampleLink) = []"
    by (simp_all add: example_facts readyStateOf_def frames_def exampleLink_def constructor_def)
  note t = capture_updates_despite_failed_send [OF p, of exampleCodec False]
  from t have 1: "lastScreen (capture exampleCodec False (Snapshot ''a'') 5 ?h) = ''a''"
    "lastForceSendTime (capture exampleCodec False (Snapshot ''a'') 5 ?h) = 5" by blast+
  from t q(1,2) have "frames (capture exampleCodec False (Snapshot ''a'') 5 ?h) = frames ?h"
    by blast
  then have 2: "frames (capture exampleCodec False (Snapshot ''a'') 5 ?h) = []"
    by (simp only: q(4))
  have r: "isConnected exampleLink \<and> (100::int) - 5 < 10000" by (simp add: example_facts)
  from t r have "frames (capture exampleCodec False (Snapshot ''a'') 100
     ((capture exampleCodec False (Snapshot ''a'') 5 ?h)\<lparr>wsClient := Some exampleLink\<rparr>)) =
     map snd (wire exampleLink)" by blast
  then have 3: "frames (capture exampleCodec False (Snapshot ''a'') 100
     ((capture exampleCodec False (Snapshot ''a'') 5 ?h)\<lparr>wsClient := Some exampleLink\<rparr>)) = []"
    by (simp only: q(5))
  from p(1,3) q(1,2,3) 1 2 r 3 show ?thesis by blast
qed

section \<open>Facts about the scan\<close>

lemma start_fields [simp]:
  "retired (startSessionHandler rnd n r) = retired r"
  "createCalls (startSessionHandler rnd n r) = createCalls r"
  "runnerConfig (startSessionHandler rnd n r) = runnerConfig r"
  "map_of (handlers (startSessionHandler rnd n r)) =
     (map_of (handlers r))(n \<mapsto> handler_start (rnd n) (newHandler (runnerConfig r) n))"
  by (simp_all add: startSessionHandler_def update_conv')

lemma stop_fields [simp]:
  "createCalls (stopSessionHandler n r) = createCalls r"
  "runnerConfig (stopSessionHandler n r) = runnerConfig r"
  "map_of (handlers (stopSessionHandler n r)) = (map_of (handlers r))(n := None)"
  "retired (stopSessionHandler n r) =
     retired r @ (case map_of (handlers r) n of None \<Rightarrow> [] | Some h \<Rightarrow> [(n, handler_stop h)])"
  by (auto simp: stopSessionHandler_def delete_conv' split: option.splits)

lemma start_fold:
  fixes T :: "string set"
  defines "f \<equiv> \<lambda>rnd T session r'. if session \<notin> T then startSessionHandler rnd session r' else r'"
  shows "retired (fold (f rnd T) xs r) = retired r"
    and "createCalls (fold (f rnd T) xs r) = createCalls r"
    and "runnerConfig (fold (f rnd T) xs r) = runnerConfig r"
    and "map_of (handlers (fold (f rnd T) xs r)) n =
         (if n \<in> set xs \<and> n \<notin> T
          then Some (handler_start (rnd n) (newHandler (runnerConfig r) n))
          else map_of (handlers r) n)"
  by (induction xs arbitrary: r) (simp_all add: f_def)

lemma stop_fold:
  fixes C :: "string set"
  defines "g \<equiv> \<lambda>C session r'. if session \<notin> C then stopSessionHandler session r' else r'"
  shows "createCalls (fold (g C) xs r) = createCalls r"
    and "runnerConfig (fold (g C) xs r) = runnerConfig r"
    and "map_of (handlers (fold (g C) xs r)) n =
         (if n \<in> set xs \<and> n \<notin> C then None else map_of (handlers r) n)"
    and "distinct xs \<Longrightarrow> retired (fold (g C) xs r) =
         retired r @ concat (map (\<lambda>n. case map_of (handlers r) n of
                                         None \<Rightarrow> [] | Some h \<Rightarrow> [(n, handler_stop h)])
                              (filter (\<lambda>n. n \<notin> C) xs))"
proof -
  show "createCalls (fold (g C) xs r) = createCalls r"
    by (induction xs arbitrary: r) (simp_all add: g_def)
  show "runnerConfig (fold (g C) xs r) = runnerConfig r"
    by (induction xs arbitrary: r) (simp_all add: g_def)
  show "map_of (handlers (fold (g C) xs r)) n =
         (if n \<in> set xs \<and> n \<notin> C then None else map_of (handlers r) n)"
    by (induction xs arbitrary: r) (simp_all add: g_def)
  show "distinct xs \<Longrightarrow> retired (fold (g C) xs r) =
         retired r @ concat (map (\<lambda>n. case map_of (handlers r) n of
                                         None \<Rightarrow> [] | Some h \<Rightarrow> [(n, handler_stop h)])
                              (filter (\<lambda>n. n \<notin> C) xs))"
  proof (induction xs arbitrary: r)
    case Nil
    then show ?case by simp
  next
    case (Cons x xs)
    have e: "map (\<lambda>n. case (if n = x then None else map_of (handlers r) n) of
                        None \<Rightarrow> [] | Some h \<Rightarrow> [(n, handler_stop h)]) (filter (\<lambda>n. n \<notin> C) xs) =
             map (\<lambda>n. case map_of (handlers r) n of
                        None \<Rightarrow> [] | Some h \<Rightarrow> [(n, handler_stop h)]) (filter (\<lambda>n. n \<notin> C) xs)"
      using Cons.prems by (intro map_cong) auto
    from Cons show ?case by (simp add: g_def e)
  qed
qed


lemma newSet_props [simp]: "set (newSet xs) = set xs" "distinct (newSet xs)"
  by (simp_all add: newSet_def)

lemma tracked_iff: "n \<in> fst ` set (handlers r) \<longleftrightarrow> map_of (handlers r) n \<noteq> None"
  by (simp add: map_of_eq_None_iff)

lemma scan_fields:
  "createCalls (scanAndUpdateSessions scan rnd r) = createCalls r"
  "runnerConfig (scanAndUpdateSessions scan rnd r) = runnerConfig r"
  by (simp_all add: scanAndUpdateSessions_def Let_def start_fold stop_fold split: option.splits)

lemma scan_handlers:
  "map_of (handlers (scanAndUpdateSessions (Some names) rnd r)) n =
     (if n \<in> set names
      then (case map_of (handlers r) n of
              None \<Rightarrow> Some (handler_start (rnd n) (newHandler (runnerConfig r) n))
            | Some h \<Rightarrow> Some h)
      else None)"
  unfolding scanAndUpdateSessions_def Let_def option.case stop_fold start_fold
  by (auto simp: tracked_iff split: option.splits)

lemma scan_retired:
  "retired (scanAndUpdateSessions (Some names) rnd r) =
     retired r @ map (\<lambda>n. (n, handler_stop (the (map_of (handlers r) n))))
                  (filter (\<lambda>n. n \<notin> set names) (newSet (map fst (handlers r))))"
proof -
  let ?T = "newSet (map fst (handlers r))"
  let ?r1 = "fold (\<lambda>session r'. if session \<notin> set ?T
                                  then startSessionHandler rnd session r' else r')
               (newSet names) r"
  have "concat (map (\<lambda>n. case map_of (handlers ?r1) n of
                            None \<Rightarrow> [] | Some h \<Rightarrow> [(n, handler_stop h)])
                 (filter (\<lambda>n. n \<notin> set (newSet names)) ?T)) =
        map (\<lambda>n. (n, handler_stop (the (map_of (handlers r) n))))
          (filter (\<lambda>n. n \<notin> set names) ?T)"
  proof -
    have "(case map_of (handlers ?r1) n of None \<Rightarrow> [] | Some h \<Rightarrow> [(n, handler_stop h)]) =
          [(n, handler_stop (the (map_of (handlers r) n)))]"
      if "n \<in> set ?T" for n
    proof -
      from that have "map_of (handlers r) n \<noteq> None" by (simp add: tracked_iff)
      then show ?thesis unfolding start_fold using that by auto
    qed
    then have "map (\<lambda>n. case map_of (handlers ?r1) n of
                            None \<Rightarrow> [] | Some h \<Rightarrow> [(n, handler_stop h)])
                 (filter (\<lambda>n. n \<notin> set (newSet names)) ?T) =
               map (\<lambda>n. [(n, handler_stop (the (map_of (handlers r) n)))])
                 (filter (\<lambda>n. n \<notin> set names) ?T)"
      by (intro map_cong) (simp_all only: newSet_props set_filter mem_Collect_eq)
    then show ?thesis by (simp only: concat_map_singleton)
  qed
  moreover have "retired ?r1 = retired r" by (rule start_fold(1))
  ultimately show ?thesis
    unfolding scanAndUpdateSessions_def Let_def option.case
    by (simp only: stop_fold(4) [OF newSet_props(2)])

qed


lemma started_handler:
  "running (handler_start x (newHandler cfg n))"
  "tmuxSession (handler_start x (newHandler cfg n)) = n"
  "startTimers (handler_start x (newHandler cfg n)) = [\<lfloor>x * 5000\<rfloor>]"
  by (simp_all add: handler_start_def newHandler_def)

lemma stopped_handler:
  "\<not> running (handler_stop h)" "wsClient (handler_stop h) = None"
  "captureTimer (handler_stop h) = None"
  "released (handler_stop h) =
     released h @ (case wsClient h of None \<Rightarrow> [] | Some c \<Rightarrow> [destroy c])"
  by (simp_all add: handler_stop_def stopScreenCapture_def Let_def split: option.splits)

section \<open>What a scan starts and stops\<close>




section \<open>Remote session creation\<close>

text \<open>
  Claim C6, as stated, fails: a name whose characters are all invalid is not sanitized to
  the empty string. Each invalid character becomes an underscore, so \<open>!!!\<close> becomes \<open>___\<close>,
  which is not empty; the request is passed to \<open>tmux.createSession\<close> and the following scan
  tracks the new session.
\<close>

theorem all_invalid_name_counterexample:
  "sanitize ''!!!'' = ''___'' \<and> sanitize ''!!!'' \<noteq> [] \<and>
   \<not> nameChar CHR ''!'' \<and>
   createCalls (createTmuxSession createSucceeds (Some [''___'']) noJitter ''!!!'' exampleRunner) =
     [''___''] \<and>
   map fst (handlers (createTmuxSession createSucceeds (Some [''___'']) noJitter ''!!!''
     exampleRunner)) = [''___'']"
  by (simp add: sanitize_def nameChar_def createTmuxSession_def exampleRunner_def
      createSucceeds_def scanAndUpdateSessions_def newSet_def startSessionHandler_def Let_def)

text \<open>
  Claim C6, amended. The sanitized name has the length of the requested name, keeps every
  alphanumeric character, \<open>-\<close> and \<open>_\<close>, and has \<open>_\<close> in place of every other character
  (\<open>my session!\<close> gives \<open>my_session_\<close>); it is empty only when the requested name is empty.
  An empty name changes nothing and reaches no capability call; a name whose sanitized
  form is already tracked changes nothing either; every other request passes the sanitized
  name to \<open>tmux.createSession\<close>.
\<close>

theorem sanitize_and_reject:
  "(\<forall>c \<in> set (sanitize name). nameChar c) \<and>
   length (sanitize name) = length name \<and>
   (\<forall>i < length name. sanitize name ! i = (if nameChar (name ! i) then name ! i else CHR ''_'')) \<and>
   sanitize ''my session!'' = ''my_session_'' \<and>
   (sanitize name = [] \<longleftrightarrow> name = []) \<and>
   createTmuxSession created scan rnd [] r = r \<and>
   (map_of (handlers r) (sanitize name) \<noteq> None \<longrightarrow>
      createTmuxSession created scan rnd name r = r) \<and>
   (name \<noteq> [] \<and> map_of (handlers r) (sanitize name) = None \<longrightarrow>
      createCalls (createTmuxSession created scan rnd name r) = createCalls r @ [sanitize name])"
proof -
  have u: "nameChar CHR ''_''" by (simp add: nameChar_def)
  have a: "\<forall>c \<in> set (sanitize name). nameChar c"
    using u by (auto simp: sanitize_def)
  have b: "length (sanitize name) = length name" by (simp add: sanitize_def)
  have c: "\<forall>i < length name. sanitize name ! i =
             (if nameChar (name ! i) then name ! i else CHR ''_'')"
    by (simp add: sanitize_def)
  have d: "sanitize ''my session!'' = ''my_session_''"
    by (simp add: sanitize_def nameChar_def)
  have e: "sanitize name = [] \<longleftrightarrow> name = []" by (simp add: sanitize_def)
  have f: "createTmuxSession created scan rnd [] r = r"
    by (simp add: createTmuxSession_def sanitize_def)
  have g: "map_of (handlers r) (sanitize name) \<noteq> None \<longrightarrow>
           createTmuxSession created scan rnd name r = r"
    by (simp add: createTmuxSession_def Let_def)
  have h: "name \<noteq> [] \<and> map_of (handlers r) (sanitize name) = None \<longrightarrow>
           createCalls (createTmuxSession created scan rnd name r) =
             createCalls r @ [sanitize name]"
    using e by (simp add: createTmuxSession_def Let_def scan_fields)
  from a b c d e f g h show ?thesis by blast
qed

theorem sanitize_and_reject_witness:
  "CHR ''_'' \<in> set (sanitize ''a b'') \<and> nameChar CHR ''_'' \<and> sanitize ''a b'' = ''a_b'' \<and>
   (1::nat) < length ''a b'' \<and> \<not> nameChar (''a b'' ! 1) \<and> sanitize ''a b'' ! 1 = CHR ''_'' \<and>
   map_of (handlers (scanAndUpdateSessions (Some [''a_b'']) noJitter exampleRunner))
     (sanitize ''a b'') \<noteq> None \<and>
   createTmuxSession createSucceeds (Some [''a_b'']) noJitter ''a b''
     (scanAndUpdateSessions (Some [''a_b'']) noJitter exampleRunner) =
     scanAndUpdateSessions (Some [''a_b'']) noJitter exampleRunner \<and>
   ''a b'' \<noteq> [] \<and> map_of (handlers exampleRunner) (sanitize ''a b'') = None \<and>
   createCalls (createTmuxSession createSucceeds (Some [''a_b'']) noJitter ''a b'' exampleRunner) =
     [''a_b'']"
proof -
  let ?r1 = "scanAndUpdateSessions (Some [''a_b'']) noJitter exampleRunner"
  have s: "sanitize ''a b'' = ''a_b''" by (simp add: sanitize_def nameChar_def)
  have p: "map_of (handlers ?r1) (sanitize ''a b'') \<noteq> None"
    unfolding s by (simp add: scan_handlers exampleRunner_def)
  have q: "''a b'' \<noteq> [] \<and> map_of (handlers exampleRunner) (sanitize ''a b'') = None"
    "createCalls exampleRunner = []"
    by (simp_all add: exampleRunner_def)
  note t1 = sanitize_and_reject [of "''a b''" createSucceeds "Some [''a_b'']" noJitter ?r1]
  note t2 = sanitize_and_reject [of "''a b''" createSucceeds "Some [''a_b'']" noJitter exampleRunner]
  have m: "CHR ''_'' \<in> set (sanitize ''a b'')" "(1::nat) < length ''a b''"
    "\<not> nameChar (''a b'' ! 1)"
    by (simp_all add: s nameChar_def)
  from t1 have "\<forall>c \<in> set (sanitize ''a b''). nameChar c"
    and "\<forall>i < length ''a b''. sanitize ''a b'' ! i =
       (if nameChar (''a b'' ! i) then ''a b'' ! i else CHR ''_'')" by blast+
  with m have 1: "nameChar CHR ''_''" and 2: "sanitize ''a b'' ! 1 = CHR ''_''"
    by auto
  from t1 p have 3: "createTmuxSession createSucceeds (Some [''a_b'']) noJitter ''a b'' ?r1 = ?r1"
    by blast
  from t2 q(1) have "createCalls (createTmuxSession createSucceeds (Some [''a_b'']) noJitter
      ''a b'' exampleRunner) = createCalls exampleRunner @ [sanitize ''a b'']" by blast
  then have 4: "createCalls (createTmuxSession createSucceeds (Some [''a_b'']) noJitter
      ''a b'' exampleRunner) = [''a_b'']"
    by (simp only: q(2) s append_Nil)
  from m 1 s 2 p 3 q(1) 4 show ?thesis by blast
qed

section \<open>Facts about \<open>handleSendKeys\<close>\<close>

lemma api_send_open:
  fixes a :: api_client
  assumes "ws a = Some i" "readyStateOf a i = OPEN"
  shows "sendApiResponse env False rid resp a =
         a\<lparr>wire := wire a @ [(i, apiResponse env rid resp)]\<rparr>"
  using assms by (simp add: sendApiResponse_def send_def)

lemma handleSendKeys_cases:
  fixes a :: api_client
  assumes "meta_get m ''requestId'' = Some rid" "rid \<noteq> []"
  shows "handleSendKeys env t m a =
     (case (if truthy (meta_get m ''payload'')
            then json_parse env (the (meta_get m ''payload'')) else Inr (JObj [])) of
        Inl msg \<Rightarrow> sendApiResponse env t rid (failure msg) a
      | Inr pl \<Rightarrow>
          if pl = JNull then sendApiResponse env t rid (failure (null_message env)) a
          else if \<not> js_truthy (getProp pl ''target'') \<or> \<not> js_truthy (getProp pl ''keys'')
          then sendApiResponse env t rid (failure ''target and keys are required'') a
          else
            (let enter = (case getProp pl ''enter'' of Undefined \<Rightarrow> Value (JBool True) | v \<Rightarrow> v);
                 a1 = a\<lparr>sendKeysCalls := sendKeysCalls a @
                         [(getProp pl ''target'', getProp pl ''keys'', enter)]\<rparr>
             in case tmux_sendKeys env (getProp pl ''target'') (getProp pl ''keys'') enter of
                  Inl msg \<Rightarrow> sendApiResponse env t rid (failure msg) a1
                | Inr success \<Rightarrow>
                    sendApiResponse env t rid
                      (JObj ((''success'', JBool success) #
                             objField ''target'' (getProp pl ''target''))) a1))"
  using assms
  by (simp add: handleSendKeys_def truthy_def Let_def split: sum.splits json.splits)


lemma example_api:
  "ws exampleApi = Some 0" "readyStateOf exampleApi 0 = OPEN" "wire exampleApi = []"
  "sendKeysCalls exampleApi = []"
  by (simp_all add: exampleApi_def apiClient_def readyStateOf_def)

lemma request_meta:
  "meta_get (sendKeysRequest rid p) ''requestId'' = Some rid"
  "meta_get (sendKeysRequest rid p) ''payload'' = p"
  by (simp_all add: sendKeysRequest_def meta_get_def split: option.splits)

section \<open>The reply to \<open>send_keys\<close>\<close>





end
